theory Spec2Isabelle
  imports Complex_Main
begin

section \<open>Text: Python strings and the regular expressions of the converter\<close>

text \<open>
  A Python \<open>str\<close> is a sequence of Unicode code points, so a text is a list of natural
  numbers; \<open>asc\<close> embeds an ASCII literal. The Chinese literals of the source are written
  by their code points.
\<close>

type_synonym ustring = "nat list"

definition asc :: "string \<Rightarrow> ustring" where
  "asc s = map of_char s"

text \<open>
  \<open>\s\<close> in a \<open>str\<close> pattern and \<open>str.strip()\<close> use the same class, the code points for
  which \<open>str.isspace()\<close> holds.
\<close>

definition is_space :: "nat \<Rightarrow> bool" where
  "is_space c \<longleftrightarrow>
     (9 \<le> c \<and> c \<le> 13) \<or> (28 \<le> c \<and> c \<le> 32) \<or> c = 133 \<or> c = 160 \<or> c = 5760 \<or>
     (8192 \<le> c \<and> c \<le> 8202) \<or> c = 8232 \<or> c = 8233 \<or> c = 8239 \<or> c = 8287 \<or> c = 12288"

text \<open>
  \<open>\d\<close> in a \<open>str\<close> pattern is the Unicode category Nd: the ASCII digits and, beyond
  ASCII, the decimal digits of the other scripts. The table is the one of Unicode 14.0.0
  (CPython 3.11): blocks of ten digits, given by their first code point, and the fifty
  mathematical digits from U+1D7CE.
\<close>

definition Nd_blocks :: "nat list" where
  "Nd_blocks =
     [1632, 1776, 1984, 2406, 2534, 2662, 2790, 2918, 3046, 3174, 3302, 3430, 3558, 3664,
      3792, 3872, 4160, 4240, 6112, 6160, 6470, 6608, 6784, 6800, 6992, 7088, 7232, 7248,
      42528, 43216, 43264, 43472, 43504, 43600, 44016, 65296, 66720, 68912, 69734, 69872,
      69942, 70096, 70384, 70736, 70864, 71248, 71360, 71472, 71904, 72016, 72784, 73040,
      73120, 92768, 92864, 93008, 123200, 123632, 125264, 130032]"

definition is_digit :: "nat \<Rightarrow> bool" where
  "is_digit c \<longleftrightarrow>
     (if c < 128 then 48 \<le> c \<and> c \<le> 57
      else list_ex (\<lambda>b. b \<le> c \<and> c \<le> b + 9) Nd_blocks \<or> (120782 \<le> c \<and> c \<le> 120831))"

text \<open>
  The character class of the first split,
  \<^verbatim>\<open>[a-zA-Z0-9\s!"#$%&\'()*+,-./:;<=>?@\[\\\]^_`{|}~]\<close>:
  letters, digits, white space, and the punctuation \<open>!\<close> to \<open>/\<close> (33 to 47, where
  \<open>,-.\<close> is the range 44 to 46), \<open>:\<close> to \<open>@\<close> (58 to 64), \<open>[\<close> to \<open>`\<close> (91 to 96)
  and \<open>{\<close> to \<open>~\<close> (123 to 126). The class of the second split is the same without
  \<open>\s\<close>.
\<close>

definition is_ascii_punct :: "nat \<Rightarrow> bool" where
  "is_ascii_punct c \<longleftrightarrow>
     (33 \<le> c \<and> c \<le> 47) \<or> (58 \<le> c \<and> c \<le> 64) \<or> (91 \<le> c \<and> c \<le> 96) \<or> (123 \<le> c \<and> c \<le> 126)"

definition latin_nospace :: "nat \<Rightarrow> bool" where
  "latin_nospace c \<longleftrightarrow>
     (97 \<le> c \<and> c \<le> 122) \<or> (65 \<le> c \<and> c \<le> 90) \<or> (48 \<le> c \<and> c \<le> 57) \<or> is_ascii_punct c"

definition latin :: "nat \<Rightarrow> bool" where
  "latin c \<longleftrightarrow>
     (97 \<le> c \<and> c \<le> 122) \<or> (65 \<le> c \<and> c \<le> 90) \<or> (48 \<le> c \<and> c \<le> 57) \<or> is_space c \<or>
     is_ascii_punct c"

text \<open>
  \<open>re.split(r'([C]+)', s)\<close> for a character class \<open>C\<close>: the text before the first
  maximal run of \<open>C\<close>, that run, the text up to the next run, and so on; the list ends with
  the text after the last run. The first and the last piece may be empty.
\<close>

function re_split :: "(nat \<Rightarrow> bool) \<Rightarrow> ustring \<Rightarrow> ustring list" where
  "re_split cls s =
     (let gap = takeWhile (\<lambda>c. \<not> cls c) s;
          rest = dropWhile (\<lambda>c. \<not> cls c) s
      in if rest = [] then [gap]
         else gap # takeWhile cls rest # re_split cls (dropWhile cls rest))"
  by pat_completeness auto
termination
proof (relation "measure (\<lambda>(cls, s). length s)")
  show "wf (measure (\<lambda>(cls, s). length s))" by simp
next
  fix cls :: "nat \<Rightarrow> bool" and s gap rest :: ustring
  assume r: "rest = dropWhile (\<lambda>c. \<not> cls c) s" and ne: "rest \<noteq> []"
  from ne have "cls (hd rest)"
    unfolding r using hd_dropWhile [of "\<lambda>c. \<not> cls c" s] by simp
  with ne have "length (dropWhile cls rest) < length rest"
    by (cases rest) (simp_all add: less_Suc_eq_le length_dropWhile_le)
  also have "length rest \<le> length s"
    unfolding r by (rule length_dropWhile_le)
  finally show "((cls, dropWhile cls rest), (cls, s)) \<in> measure (\<lambda>(cls, s). length s)"
    by simp
qed

declare re_split.simps [simp del]

text \<open>
  \<open>re.match(r'^[C]+$', s)\<close>: \<open>$\<close> matches at the end of the text and also just before
  a newline that ends it.
\<close>

definition match_class_line :: "(nat \<Rightarrow> bool) \<Rightarrow> ustring \<Rightarrow> bool" where
  "match_class_line cls s \<longleftrightarrow>
     s \<noteq> [] \<and> (list_all cls s \<or> (last s = 10 \<and> butlast s \<noteq> [] \<and> list_all cls (butlast s)))"

text \<open>
  \<open>re.match(r'(\[\^?)(\d+)(\])', part)\<close>, giving group 2: an opening bracket, an optional
  hat, the longest run of digits, which is not empty, and a closing bracket.
\<close>

definition citation_match :: "ustring \<Rightarrow> ustring option" where
  "citation_match part =
     (case part of
        [] \<Rightarrow> None
      | c # r \<Rightarrow>
          if c \<noteq> 91 then None
          else let r' = (case r of [] \<Rightarrow> r | h # t \<Rightarrow> if h = 94 then t else r);
                   ds = takeWhile is_digit r';
                   tl = dropWhile is_digit r'
               in if ds \<noteq> [] \<and> tl \<noteq> [] \<and> hd tl = 93 then Some ds else None)"

text \<open>
  \<open>(?:sep \d+)*\<close>, greedy: the text matched and the text left. An iteration needs the
  separator and at least one digit.
\<close>

function sep_groups :: "nat \<Rightarrow> ustring \<Rightarrow> ustring \<times> ustring" where
  "sep_groups sep s =
     (case s of
        [] \<Rightarrow> ([], s)
      | c # t \<Rightarrow>
          if c = sep \<and> takeWhile is_digit t \<noteq> []
          then (let (m, r) = sep_groups sep (dropWhile is_digit t)
                in (c # takeWhile is_digit t @ m, r))
          else ([], s))"
  by pat_completeness auto
termination
  by (relation "measure (\<lambda>(sep, s). length s)")
     (auto simp: less_Suc_eq_le length_dropWhile_le)

declare sep_groups.simps [simp del]

text \<open>
  \<open>re.match(r'(\[)(\d+(?:,\d+)*(?:-\d+)*)(\])', part)\<close>, giving group 2.
\<close>

definition ref_match_in_text :: "ustring \<Rightarrow> ustring option" where
  "ref_match_in_text part =
     (case part of
        [] \<Rightarrow> None
      | c # r \<Rightarrow>
          if c \<noteq> 91 then None
          else let ds = takeWhile is_digit r;
                   (commas, r1) = sep_groups 44 (dropWhile is_digit r);
                   (dashes, r2) = sep_groups 45 r1
               in if ds \<noteq> [] \<and> r2 \<noteq> [] \<and> hd r2 = 93 then Some (ds @ commas @ dashes) else None)"


section \<open>The output document\<close>

text \<open>
  The document object model is the output sink. A run, a paragraph and a section record
  the values the converter assigns to them; a property the converter never assigns is
  \<open>None\<close>. Lengths are kept as the source writes them, in points or centimetres.
\<close>

datatype length = Pt rat | Cm rat

datatype alignment = LEFT | CENTER | JUSTIFY

datatype line_spacing_rule = ONE_POINT_FIVE | MULTIPLE | EXACTLY

datatype line_spacing = Lines rat | Exact length

datatype run_special = Plain | Page_Break | Picture ustring rat | Field ustring

record run =
  run_text :: ustring
  run_special :: run_special
  font_name :: "ustring option"
  font_east_asia :: "ustring option"
  font_size :: "length option"
  font_bold :: "bool option"
  font_italic :: "bool option"
  font_color :: "(nat \<times> nat \<times> nat) option"
  font_superscript :: "bool option"

record para =
  p_style :: "ustring option"
  p_alignment :: "alignment option"
  p_line_spacing_rule :: "line_spacing_rule option"
  p_line_spacing :: "line_spacing option"
  p_space_before :: "length option"
  p_space_after :: "length option"
  p_first_line_indent :: "length option"
  p_left_indent :: "length option"
  p_keep_with_next :: "bool option"
  p_page_break_before :: "bool option"
  p_bottom_border :: bool
  runs :: "run list"

definition add_run :: "ustring \<Rightarrow> run" where
  "add_run t =
     \<lparr>run_text = t, run_special = Plain, font_name = None, font_east_asia = None,
      font_size = None, font_bold = None, font_italic = None, font_color = None,
      font_superscript = None\<rparr>"

definition new_paragraph :: "ustring option \<Rightarrow> para" where
  "new_paragraph sty =
     \<lparr>p_style = sty, p_alignment = None, p_line_spacing_rule = None, p_line_spacing = None,
      p_space_before = None, p_space_after = None, p_first_line_indent = None,
      p_left_indent = None, p_keep_with_next = None, p_page_break_before = None,
      p_bottom_border = False, runs = []\<rparr>"

definition paragraph_text :: "para \<Rightarrow> ustring" where
  "paragraph_text p = concat (map run_text (runs p))"

subsection \<open>Constants\<close>

definition FONT_SONGTI :: ustring where "FONT_SONGTI = [23435, 20307]"
definition FONT_HEITI :: ustring where "FONT_HEITI = [40657, 20307]"
definition FONT_KAITI :: ustring where "FONT_KAITI = [26999, 20307]"
definition FONT_TIMES_NEW_ROMAN :: ustring where "FONT_TIMES_NEW_ROMAN = asc ''Times New Roman''"

definition SIZE_THREE :: rat where "SIZE_THREE = 16"
definition SIZE_SMALL_THREE :: rat where "SIZE_SMALL_THREE = 15"
definition SIZE_FOUR :: rat where "SIZE_FOUR = 14"
definition SIZE_SMALL_FOUR :: rat where "SIZE_SMALL_FOUR = 12"
definition SIZE_FIVE :: rat where "SIZE_FIVE = 21 / 2"
definition SIZE_SMALL_FIVE :: rat where "SIZE_SMALL_FIVE = 9"

definition LINE_SPACING_1_25 :: rat where "LINE_SPACING_1_25 = 5 / 4"
definition LINE_SPACING_1_5 :: rat where "LINE_SPACING_1_5 = 3 / 2"
definition LINE_SPACING_FIXED_20PT :: length where "LINE_SPACING_FIXED_20PT = Pt 20"

definition MARGIN_CM :: rat where "MARGIN_CM = 5 / 2"

text \<open>
  A \<open>Length\<close> is an integer count of English Metric Units, 12700 to the point. The source
  passes \<open>Pt(SIZE_THREE)\<close> where a number of points is expected; the number it passes
  is this count.
\<close>

definition emu_of_pt :: "rat \<Rightarrow> rat" where
  "emu_of_pt x = of_int (\<lfloor>x * 12700\<rfloor>)"

subsection \<open>Run and paragraph formatting\<close>

definition set_run_font :: "run \<Rightarrow> ustring \<Rightarrow> ustring \<Rightarrow> rat \<Rightarrow> bool \<Rightarrow> bool \<Rightarrow> run" where
  "set_run_font r east_asia_font ascii_font size_pt bold italic =
     r\<lparr>font_name := Some ascii_font, font_east_asia := Some east_asia_font,
       font_size := Some (Pt size_pt), font_bold := Some bold, font_italic := Some italic,
       font_color := Some (0, 0, 0)\<rparr>"

text \<open>
  The keyword arguments of \<open>set_paragraph_formatting\<close> with their defaults, and those of
  \<open>add_styled_paragraph\<close>, which has the first seven and the last of them, with its own
  default for the line spacing rule, and four more.
\<close>

record fmt_args =
  alignment :: alignment
  line_spacing_rule :: line_spacing_rule
  line_spacing_val :: rat
  space_before_pt :: rat
  space_after_pt :: rat
  first_line_indent_cm :: "rat option"
  keep_with_next :: bool
  page_break_before :: bool
  fixed_line_height_pt :: "length option"

record styled_args = fmt_args +
  bold_default :: bool
  is_heading :: bool
  heading_font_override :: "ustring option"
  is_reference :: bool

definition fmt_defaults :: fmt_args where
  "fmt_defaults =
     \<lparr>alignment = LEFT, line_spacing_rule = ONE_POINT_FIVE, line_spacing_val = LINE_SPACING_1_25,
      space_before_pt = 0, space_after_pt = 0, first_line_indent_cm = None,
      keep_with_next = False, page_break_before = False, fixed_line_height_pt = None\<rparr>"

definition styled_defaults :: styled_args where
  "styled_defaults =
     \<lparr>alignment = LEFT, line_spacing_rule = MULTIPLE, line_spacing_val = LINE_SPACING_1_25,
      space_before_pt = 0, space_after_pt = 0, first_line_indent_cm = None,
      keep_with_next = False, page_break_before = False, fixed_line_height_pt = None,
      bold_default = False, is_heading = False, heading_font_override = None,
      is_reference = False\<rparr>"

text \<open>
  A length is false in a condition when it is zero, and so is a number; \<open>None\<close> is false.
\<close>

fun length_true :: "length option \<Rightarrow> bool" where
  "length_true None = False"
| "length_true (Some (Pt x)) = (x \<noteq> 0)"
| "length_true (Some (Cm x)) = (x \<noteq> 0)"

definition set_paragraph_formatting :: "para \<Rightarrow> 'a fmt_args_scheme \<Rightarrow> para" where
  "set_paragraph_formatting p a =
     (let p1 = p\<lparr>p_alignment := Some (alignment a)\<rparr>;
          p2 = (if length_true (fixed_line_height_pt a)
                then p1\<lparr>p_line_spacing_rule := Some EXACTLY,
                        p_line_spacing := map_option Exact (fixed_line_height_pt a)\<rparr>
                else p1\<lparr>p_line_spacing_rule := Some (line_spacing_rule a),
                        p_line_spacing := Some (Lines (line_spacing_val a))\<rparr>);
          p3 = p2\<lparr>p_space_before := Some (Pt (space_before_pt a)),
                   p_space_after := Some (Pt (space_after_pt a))\<rparr>;
          p4 = (case first_line_indent_cm a of
                  None \<Rightarrow> p3\<lparr>p_first_line_indent := None\<rparr>
                | Some x \<Rightarrow>
                    if x \<noteq> 0 then p3\<lparr>p_first_line_indent := Some (Cm x)\<rparr>
                    else p3\<lparr>p_first_line_indent := None\<rparr>)
      in p4\<lparr>p_keep_with_next := Some (keep_with_next a),
             p_page_break_before := Some (page_break_before a)\<rparr>)"

section \<open>The inline text segmenter: \<open>add_styled_paragraph\<close>\<close>

text \<open>
  \<open>heading_font_override if is_heading and heading_font_override else dflt\<close>: an empty
  override is false.
\<close>

definition current_font :: "bool \<Rightarrow> ustring option \<Rightarrow> ustring \<Rightarrow> ustring" where
  "current_font heading override dflt =
     (case override of
        None \<Rightarrow> dflt
      | Some f \<Rightarrow> if heading \<and> f \<noteq> [] then f else dflt)"

text \<open>The inner loop over the pieces of a part that is not a Latin/symbol part.\<close>

definition sub_part_runs ::
  "ustring \<Rightarrow> ustring \<Rightarrow> rat \<Rightarrow> 'a styled_args_scheme \<Rightarrow> ustring \<Rightarrow> run list" where
  "sub_part_runs default_east_asia_font default_ascii_font default_size_pt a sub_part =
     (if sub_part = [] then []
      else if match_class_line latin_nospace sub_part
      then [set_run_font (add_run sub_part) default_east_asia_font
              (current_font (is_heading a) (heading_font_override a) default_ascii_font)
              default_size_pt (bold_default a) False]
      else [set_run_font (add_run sub_part)
              (current_font (is_heading a) (heading_font_override a) default_east_asia_font)
              default_ascii_font default_size_pt (bold_default a) False])"

text \<open>The body of the loop over the parts: the runs one part adds to the paragraph.\<close>

definition part_runs ::
  "ustring \<Rightarrow> ustring \<Rightarrow> rat \<Rightarrow> 'a styled_args_scheme \<Rightarrow> ustring \<Rightarrow> run list" where
  "part_runs default_east_asia_font default_ascii_font default_size_pt a part =
     (if part = [] then []
      else
        let is_ascii_part = match_class_line latin part
        in case citation_match part of
             Some n \<Rightarrow>
               [(set_run_font (add_run ([91] @ n @ [93])) default_east_asia_font
                   FONT_TIMES_NEW_ROMAN default_size_pt (bold_default a) False)
                  \<lparr>font_superscript := Some True\<rparr>]
           | None \<Rightarrow>
               (case ref_match_in_text part of
                  Some g \<Rightarrow>
                    if \<not> is_heading a
                    then [set_run_font (add_run ([91] @ g @ [93])) default_east_asia_font
                            FONT_TIMES_NEW_ROMAN default_size_pt (bold_default a) False]
                    else if is_ascii_part
                    then [set_run_font (add_run part) default_east_asia_font
                            (current_font (is_heading a) (heading_font_override a) default_ascii_font)
                            default_size_pt (bold_default a) False]
                    else concat (map (sub_part_runs default_east_asia_font default_ascii_font
                                        default_size_pt a) (re_split latin_nospace part))
                | None \<Rightarrow>
                    if is_ascii_part
                    then [set_run_font (add_run part) default_east_asia_font
                            (current_font (is_heading a) (heading_font_override a) default_ascii_font)
                            default_size_pt (bold_default a) False]
                    else concat (map (sub_part_runs default_east_asia_font default_ascii_font
                                        default_size_pt a) (re_split latin_nospace part))))"

text \<open>
  The paragraph that \<open>add_styled_paragraph\<close> appends to the document and returns.
\<close>

definition styled_paragraph ::
  "ustring \<Rightarrow> ustring \<Rightarrow> ustring \<Rightarrow> rat \<Rightarrow> 'a styled_args_scheme \<Rightarrow> para" where
  "styled_paragraph text_content default_east_asia_font default_ascii_font default_size_pt a =
     (let p = set_paragraph_formatting (new_paragraph None)
                (a\<lparr>keep_with_next := False, page_break_before := False\<rparr>)
      in if is_reference a then p\<lparr>runs := [add_run text_content]\<rparr>
         else p\<lparr>runs := concat (map (part_runs default_east_asia_font default_ascii_font
                                        default_size_pt a) (re_split latin text_content))\<rparr>)"

text \<open>
  The text that stands in the paragraph for a part that begins with a citation marker: the
  marker without its hat; the rest of the part is not emitted.
\<close>

definition rendered_marker :: "bool \<Rightarrow> ustring \<Rightarrow> ustring option" where
  "rendered_marker heading part =
     (case citation_match part of
        Some n \<Rightarrow> Some ([91] @ n @ [93])
      | None \<Rightarrow>
          (case ref_match_in_text part of
             Some g \<Rightarrow> if heading then None else Some ([91] @ g @ [93])
           | None \<Rightarrow> None))"



section \<open>String operations and the other patterns\<close>

text \<open>\<open>needle in s\<close>, \<open>s.strip()\<close>, \<open>s.split(' ')\<close>, \<open>' '.join(ws)\<close> and \<open>str(n)\<close>.\<close>

fun contains :: "ustring \<Rightarrow> ustring \<Rightarrow> bool" where
  "contains needle [] = (needle = [])"
| "contains needle (c # cs) = (take (length needle) (c # cs) = needle \<or> contains needle cs)"

definition strip :: "ustring \<Rightarrow> ustring" where
  "strip s = rev (dropWhile is_space (rev (dropWhile is_space s)))"

fun split_on :: "nat \<Rightarrow> ustring \<Rightarrow> ustring list" where
  "split_on sep [] = [ [] ]"
| "split_on sep (c # cs) =
     (if c = sep then [] # split_on sep cs
      else (c # hd (split_on sep cs)) # tl (split_on sep cs))"

fun join :: "ustring \<Rightarrow> ustring list \<Rightarrow> ustring" where
  "join sep [] = []"
| "join sep [w] = w"
| "join sep (w # ws) = w @ sep @ join sep ws"

fun str_nat :: "nat \<Rightarrow> ustring" where
  "str_nat n = (if n < 10 then [48 + n] else str_nat (n div 10) @ [48 + n mod 10])"

declare str_nat.simps [simp del]

text \<open>
  \<open>s.splitlines()\<close>: a line ends at a line feed, vertical tab, form feed, carriage return
  (with the line feed that follows it, if any), at U+001C to U+001E, U+0085, U+2028 or
  U+2029; the text after the last line end is a line only if it is not empty.
\<close>

definition line_end :: "nat \<Rightarrow> bool" where
  "line_end c \<longleftrightarrow> (10 \<le> c \<and> c \<le> 13) \<or> (28 \<le> c \<and> c \<le> 30) \<or> c = 133 \<or> c = 8232 \<or> c = 8233"

function splitlines :: "ustring \<Rightarrow> ustring list" where
  "splitlines s =
     (if s = [] then []
      else case dropWhile (\<lambda>c. \<not> line_end c) s of
             [] \<Rightarrow> [s]
           | c # r \<Rightarrow>
               takeWhile (\<lambda>c. \<not> line_end c) s #
                 splitlines (if c = 13 \<and> r \<noteq> [] \<and> hd r = 10 then tl r else r))"
  by pat_completeness auto
termination
proof (relation "measure length")
  show "wf (measure length)" by simp
next
  fix s :: ustring and c r
  assume "dropWhile (\<lambda>c. \<not> line_end c) s = c # r"
  then have "length (c # r) \<le> length s"
    by (metis length_dropWhile_le)
  moreover have "length (if c = 13 \<and> r \<noteq> [] \<and> hd r = 10 then tl r else r) \<le> length r"
    by simp
  ultimately show "(if c = 13 \<and> r \<noteq> [] \<and> hd r = 10 then tl r else r, s) \<in> measure length"
    by simp
qed

declare splitlines.simps [simp del]

text \<open>
  \<open>re.match(r'(X\s*[\d\.]+)\s*(.*)', s)\<close> for a character \<open>X\<close>, giving groups 1 and 2: the
  caption label and the caption. The dot does not match a line feed. The source uses it
  with U+56FE for figures and with U+8868 for tables.
\<close>

definition digit_or_dot :: "nat \<Rightarrow> bool" where
  "digit_or_dot c \<longleftrightarrow> is_digit c \<or> c = 46"

definition label_match :: "nat \<Rightarrow> ustring \<Rightarrow> (ustring \<times> ustring) option" where
  "label_match x s =
     (case s of
        [] \<Rightarrow> None
      | c # r \<Rightarrow>
          if c \<noteq> x then None
          else let ws = takeWhile is_space r;
                   r1 = dropWhile is_space r;
                   num = takeWhile digit_or_dot r1;
                   r2 = dropWhile digit_or_dot r1
               in if num = [] then None
                  else Some (c # ws @ num, takeWhile (\<lambda>c. c \<noteq> 10) (dropWhile is_space r2)))"

definition TU :: nat where "TU = 22270"
definition BIAO :: nat where "BIAO = 34920"

text \<open>\<open>re.match(r'%%(U+56FE\s*[\d\.]+)\s*(.*)', code_content)\<close>.\<close>

definition mermaid_caption_match :: "ustring \<Rightarrow> (ustring \<times> ustring) option" where
  "mermaid_caption_match s =
     (case s of
        a # b # r \<Rightarrow> if a = 37 \<and> b = 37 then label_match TU r else None
      | _ \<Rightarrow> None)"

text \<open>\<open>re.match(r'([\d\.]+)\s*(.*)', text)\<close>, the number and the title of a heading.\<close>

definition num_match :: "ustring \<Rightarrow> (ustring \<times> ustring) option" where
  "num_match s =
     (let num = takeWhile digit_or_dot s;
          r = dropWhile digit_or_dot s
      in if num = [] then None
         else Some (num, takeWhile (\<lambda>c. c \<noteq> 10) (dropWhile is_space r)))"

text \<open>
  \<open>re.match(r"(U+7B2C[...]+U+7AE0)\s*(.*)", title_text)\<close>, giving group 1; the class holds
  the Chinese numerals one to ten and hundred.
\<close>

definition chinese_numeral :: "nat \<Rightarrow> bool" where
  "chinese_numeral c \<longleftrightarrow>
     c \<in> set [19968, 20108, 19977, 22235, 20116, 20845, 19971, 20843, 20061, 21313, 30334]"

definition DI :: nat where "DI = 31532"
definition ZHANG :: nat where "ZHANG = 31456"

definition chap_match :: "ustring \<Rightarrow> ustring option" where
  "chap_match s =
     (case s of
        [] \<Rightarrow> None
      | c # r \<Rightarrow>
          if c \<noteq> DI then None
          else let ns = takeWhile chinese_numeral r;
                   tl = dropWhile chinese_numeral r
               in if ns \<noteq> [] \<and> tl \<noteq> [] \<and> hd tl = ZHANG then Some (c # ns @ [ZHANG]) else None)"

text \<open>
  \<open>re.match(r'\[\^(\d+)\]:\s*(.*)', item_text, re.DOTALL)\<close>, giving groups 1 and 2.
\<close>

definition footnote_item_match :: "ustring \<Rightarrow> (ustring \<times> ustring) option" where
  "footnote_item_match s =
     (case s of
        a # b # r \<Rightarrow>
          if a = 91 \<and> b = 94
          then (let ds = takeWhile is_digit r
                in case dropWhile is_digit r of
                     c # d # u \<Rightarrow>
                       if ds \<noteq> [] \<and> c = 93 \<and> d = 58 then Some (ds, dropWhile is_space u)
                       else None
                   | _ \<Rightarrow> None)
          else None
      | _ \<Rightarrow> None)"

text \<open>
  \<open>re.search(r'\[(U+8868.*?)]', s)\<close>, giving group 1: the first opening bracket that is
  followed by U+8868 and, on the same line, by a closing bracket.
\<close>

fun caption_search :: "ustring \<Rightarrow> ustring option" where
  "caption_search [] = None"
| "caption_search (c # r) =
     (if c = 91 \<and> r \<noteq> [] \<and> hd r = BIAO \<and>
         (let t = dropWhile (\<lambda>x. x \<noteq> 93 \<and> x \<noteq> 10) (tl r) in t \<noteq> [] \<and> hd t = 93)
      then Some (BIAO # takeWhile (\<lambda>x. x \<noteq> 93 \<and> x \<noteq> 10) (tl r))
      else caption_search r)"

text \<open>
  \<open>s.replace(old, new)\<close> for a text \<open>old\<close> that is not empty.
\<close>

function replace :: "ustring \<Rightarrow> ustring \<Rightarrow> ustring \<Rightarrow> ustring" where
  "replace old new s =
     (if s = [] \<or> old = [] then s
      else if take (length old) s = old then new @ replace old new (drop (length old) s)
      else hd s # replace old new (tl s))"
  by pat_completeness auto
termination
  by (relation "measure (\<lambda>(old, new, s). length s)") (auto simp: neq_Nil_conv)

declare replace.simps [simp del]

section \<open>Document, sections and the emitters of block elements\<close>

text \<open>
  The body of the document is the list of its blocks in order. \<open>add_section\<close> puts a
  section break at the end of the body and starts a section that inherits the page
  geometry and has no header or footer of its own. A header or footer records whether it
  is linked to the previous section, and its paragraphs.
\<close>

record table_cell =
  cell_text :: ustring
  cell_font :: "(ustring \<times> ustring \<times> rat \<times> bool) option"
  cell_alignment :: "alignment option"

datatype block =
    Para para
  | Table_Block "table_cell list list"
  | Section_Break

record header_footer =
  is_linked_to_previous :: bool
  hf_paragraphs :: "para list"

record doc_section =
  page_height :: "length option"
  page_width :: "length option"
  margins :: "(length \<times> length \<times> length \<times> length) option"
  header :: header_footer
  footer :: header_footer

record document =
  body :: "block list"
  sections :: "doc_section list"

definition linked_empty :: header_footer where
  "linked_empty = \<lparr>is_linked_to_previous = True, hf_paragraphs = []\<rparr>"

definition Document :: document where
  "Document =
     \<lparr>body = [],
      sections = [\<lparr>page_height = None, page_width = None, margins = None,
                   header = linked_empty, footer = linked_empty\<rparr>]\<rparr>"

definition add_block :: "document \<Rightarrow> block \<Rightarrow> document" where
  "add_block d b = d\<lparr>body := body d @ [b]\<rparr>"

definition add_paragraph :: "document \<Rightarrow> para \<Rightarrow> document" where
  "add_paragraph d p = add_block d (Para p)"

definition add_section :: "document \<Rightarrow> document" where
  "add_section d =
     d\<lparr>body := body d @ [Section_Break],
       sections := sections d @
         [(last (sections d))\<lparr>header := linked_empty, footer := linked_empty\<rparr>]\<rparr>"

definition add_styled_paragraph ::
  "document \<Rightarrow> ustring \<Rightarrow> ustring \<Rightarrow> ustring \<Rightarrow> rat \<Rightarrow> 'a styled_args_scheme \<Rightarrow> document" where
  "add_styled_paragraph d text_content default_east_asia_font default_ascii_font default_size_pt a =
     add_paragraph d
       (styled_paragraph text_content default_east_asia_font default_ascii_font default_size_pt a)"

subsection \<open>Headings\<close>

text \<open>
  \<open>add_heading\<close> gives the paragraph it adds and the text for the table of contents,
  \<open>None\<close> for a heading that has no entry there. For a level other than 1 to 5 the source
  returns nothing. The text it cleans of its number is not used.
\<close>

definition heading_paragraph :: "ustring \<Rightarrow> 'a fmt_args_scheme \<Rightarrow> run list \<Rightarrow> para" where
  "heading_paragraph sty a rs = (set_paragraph_formatting (new_paragraph (Some sty)) a)\<lparr>runs := rs\<rparr>"

definition numbered_heading :: "ustring \<Rightarrow> 'a fmt_args_scheme \<Rightarrow> rat \<Rightarrow> ustring \<Rightarrow> para" where
  "numbered_heading sty a size_pt text_content =
     heading_paragraph sty a
       (case num_match text_content of
          Some (num_part, title_part) \<Rightarrow>
            [set_run_font (add_run (num_part @ [32])) FONT_HEITI FONT_TIMES_NEW_ROMAN size_pt True False,
             set_run_font (add_run title_part) FONT_HEITI FONT_HEITI size_pt True False]
        | None \<Rightarrow> [set_run_font (add_run text_content) FONT_HEITI FONT_HEITI size_pt True False])"

definition add_heading :: "ustring \<Rightarrow> nat \<Rightarrow> (para \<times> ustring option) option" where
  "add_heading text_content level =
     (if level = 1 then
        Some (heading_paragraph (asc ''Heading 1'')
                (fmt_defaults\<lparr>alignment := CENTER, line_spacing_val := LINE_SPACING_1_5,
                   page_break_before := True, space_after_pt := 12\<rparr>)
                [set_run_font
                   (add_run (hd (split_on 32 text_content) @
                      (if 32 \<in> set text_content then [32] else [32, 32])))
                   FONT_HEITI FONT_TIMES_NEW_ROMAN SIZE_THREE True False,
                 set_run_font (add_run (join [32] (tl (split_on 32 text_content))))
                   FONT_HEITI FONT_HEITI SIZE_THREE True False],
              Some text_content)
      else if level = 2 then
        Some (numbered_heading (asc ''Heading 2'')
                (fmt_defaults\<lparr>alignment := CENTER, line_spacing_val := LINE_SPACING_1_5,
                   space_before_pt := 12, space_after_pt := 6\<rparr>)
                SIZE_SMALL_THREE text_content,
              Some text_content)
      else if level = 3 then
        Some (numbered_heading (asc ''Heading 3'')
                (fmt_defaults\<lparr>alignment := LEFT, line_spacing_val := LINE_SPACING_1_5,
                   space_before_pt := 10, space_after_pt := 5\<rparr>)
                SIZE_FOUR text_content,
              Some text_content)
      else if level = 4 then
        Some ((set_paragraph_formatting (new_paragraph None)
                 (fmt_defaults\<lparr>alignment := LEFT, line_spacing_val := LINE_SPACING_1_25,
                    space_before_pt := 5, space_after_pt := 2\<rparr>))
                \<lparr>runs := [set_run_font (add_run text_content) FONT_HEITI FONT_HEITI
                            SIZE_SMALL_FOUR True False]\<rparr>,
              None)
      else if level = 5 then
        Some (styled_paragraph text_content FONT_SONGTI FONT_TIMES_NEW_ROMAN SIZE_SMALL_FOUR
                (styled_defaults\<lparr>alignment := LEFT, line_spacing_val := LINE_SPACING_1_25\<rparr>),
              None)
      else None)"

subsection \<open>Table of contents, header and footer\<close>

text \<open>
  The field instruction \<^verbatim>\<open>TOC \o "1-3" \h \z \u\<close>; 92 is the backslash and 34 the
  double quote.
\<close>

definition TOC_FIELD :: ustring where
  "TOC_FIELD =
     asc ''TOC '' @ [92, 111, 32, 34] @ asc ''1-3'' @ [34, 32, 92, 104, 32, 92, 122, 32, 92, 117]"

definition add_toc_placeholder :: "document \<Rightarrow> document" where
  "add_toc_placeholder d =
     (let toc_title_p =
            (set_paragraph_formatting (new_paragraph None)
               (fmt_defaults\<lparr>alignment := CENTER, line_spacing_val := LINE_SPACING_1_5,
                  space_before_pt := 12, space_after_pt := 12\<rparr>))
              \<lparr>runs := [set_run_font (add_run [30446, 32, 32, 32, 24405]) FONT_HEITI FONT_HEITI
                          SIZE_THREE True False]\<rparr>;
          toc_field_p =
            (set_paragraph_formatting (new_paragraph None)
               (fmt_defaults\<lparr>line_spacing_val := LINE_SPACING_1_25\<rparr>))
              \<lparr>runs := [set_run_font
                          ((add_run [])\<lparr>run_special := Field TOC_FIELD\<rparr>)
                          FONT_SONGTI FONT_TIMES_NEW_ROMAN SIZE_SMALL_FOUR False False]\<rparr>
      in add_paragraph (add_paragraph d toc_title_p) toc_field_p)"

text \<open>
  \<open>add_page_number_field\<close> adds one run that holds the field \<open>PAGE\<close>. Assigning a text to
  a paragraph replaces its runs by one run with that text.
\<close>

definition add_page_number_field :: "para \<Rightarrow> para" where
  "add_page_number_field p = p\<lparr>runs := runs p @ [(add_run [])\<lparr>run_special := Field (asc ''PAGE'')\<rparr>]\<rparr>"

definition first_paragraph :: "header_footer \<Rightarrow> para \<times> para list" where
  "first_paragraph hf =
     (case hf_paragraphs hf of [] \<Rightarrow> (new_paragraph None, []) | p # ps \<Rightarrow> (p, ps))"

definition set_header_footer :: "doc_section \<Rightarrow> ustring \<Rightarrow> rat \<Rightarrow> doc_section" where
  "set_header_footer sec header_text footer_font_size_pt =
     (let (p_header, hs) = first_paragraph (header sec);
          p_header1 = set_paragraph_formatting (p_header\<lparr>runs := [add_run header_text]\<rparr>)
                        (fmt_defaults\<lparr>alignment := CENTER\<rparr>);
          p_header2 = p_header1\<lparr>runs := map (\<lambda>r. set_run_font r FONT_SONGTI FONT_SONGTI SIZE_FIVE
                                                False False) (runs p_header1),
                                p_bottom_border := True\<rparr>;
          (p_footer, fs) = first_paragraph (footer sec);
          p_footer1 = add_page_number_field
                        (set_paragraph_formatting (p_footer\<lparr>runs := []\<rparr>)
                           (fmt_defaults\<lparr>alignment := CENTER\<rparr>));
          p_footer2 = p_footer1\<lparr>runs := map (\<lambda>r. set_run_font r FONT_SONGTI FONT_SONGTI
                                                footer_font_size_pt False False) (runs p_footer1)\<rparr>
      in sec\<lparr>header := \<lparr>is_linked_to_previous = False, hf_paragraphs = p_header2 # hs\<rparr>,
             footer := \<lparr>is_linked_to_previous = False, hf_paragraphs = p_footer2 # fs\<rparr>\<rparr>)"

text \<open>
  The first section: header and footer are linked to the previous section, and their
  paragraphs are cleared.
\<close>

definition clear_header_footer :: "doc_section \<Rightarrow> doc_section" where
  "clear_header_footer sec =
     sec\<lparr>header := \<lparr>is_linked_to_previous = True,
                      hf_paragraphs = map (\<lambda>p. p\<lparr>runs := []\<rparr>) (hf_paragraphs (header sec))\<rparr>,
         footer := \<lparr>is_linked_to_previous = True,
                      hf_paragraphs = map (\<lambda>p. p\<lparr>runs := []\<rparr>) (hf_paragraphs (footer sec))\<rparr>\<rparr>"

text \<open>The loop over the sections that ends \<open>markdown_to_word\<close>.\<close>

definition apply_headers_footers :: "ustring \<Rightarrow> doc_section list \<Rightarrow> doc_section list" where
  "apply_headers_footers header_text_content secs =
     map (\<lambda>(i, sec). if i = 0 then clear_header_footer sec
                      else set_header_footer sec header_text_content SIZE_SMALL_FIVE)
       (enumerate 0 secs)"

subsection \<open>Images and tables\<close>

definition caption_paragraph :: "ustring \<Rightarrow> ustring \<Rightarrow> para" where
  "caption_paragraph num_text caption_text =
     (set_paragraph_formatting (new_paragraph None)
        (fmt_defaults\<lparr>alignment := CENTER, line_spacing_val := LINE_SPACING_1_25\<rparr>))
       \<lparr>runs := [set_run_font (add_run (num_text @ [32])) FONT_KAITI FONT_TIMES_NEW_ROMAN
                   SIZE_FIVE False False,
                 set_run_font (add_run caption_text) FONT_KAITI FONT_KAITI SIZE_FIVE False False]\<rparr>"

definition empty_line :: para where
  "empty_line =
     styled_paragraph [] FONT_SONGTI FONT_TIMES_NEW_ROMAN SIZE_SMALL_FOUR
       (styled_defaults\<lparr>space_after_pt := 6\<rparr>)"

text \<open>
  \<open>add_image_with_caption\<close>. Whether the file exists and whether the sink takes it as a
  picture are given; when the sink raises, the paragraph for the picture is already
  there, with an empty run. The function catches every exception.
\<close>

definition add_image_with_caption ::
  "document \<Rightarrow> bool \<Rightarrow> bool \<Rightarrow> ustring \<Rightarrow> ustring \<Rightarrow> ustring \<Rightarrow> document" where
  "add_image_with_caption d file_exists picture_accepted image_path caption_text fig_num_text =
     (let p_img = set_paragraph_formatting (new_paragraph None) (fmt_defaults\<lparr>alignment := CENTER\<rparr>);
          caption = (\<lambda>d. add_paragraph (add_paragraph d (caption_paragraph fig_num_text caption_text))
                            empty_line)
      in if \<not> file_exists then caption d
         else if \<not> picture_accepted then caption (add_paragraph d (p_img\<lparr>runs := [add_run [] ]\<rparr>))
         else caption (add_paragraph d
                (p_img\<lparr>runs := [(add_run [])\<lparr>run_special := Picture image_path 15\<rparr>]\<rparr>)))"

text \<open>
  A table element: the texts of its \<open>th\<close> cells, and the rows of its \<open>tbody\<close>, each the
  texts of its \<open>td\<close> cells, when it has a \<open>tbody\<close>. The source asks the \<open>tbody\<close> for its rows
  without testing that there is one.
\<close>

record table_el =
  th_texts :: "ustring list"
  tbody_rows :: "ustring list list option"

datatype exn =
    FileNotFoundError | JSONDecodeError | KeyError | AttributeError | TypeError | OSError
  | Subprocess_Error

definition empty_cell :: table_cell where
  "empty_cell = \<lparr>cell_text = [], cell_font = None, cell_alignment = None\<rparr>"

definition header_cell :: "ustring \<Rightarrow> table_cell" where
  "header_cell t =
     \<lparr>cell_text = t, cell_font = Some (FONT_SONGTI, FONT_TIMES_NEW_ROMAN, SIZE_SMALL_FOUR, True),
      cell_alignment = Some CENTER\<rparr>"

definition data_cell :: "ustring \<Rightarrow> table_cell" where
  "data_cell t =
     \<lparr>cell_text = t, cell_font = Some (FONT_SONGTI, FONT_TIMES_NEW_ROMAN, SIZE_SMALL_FOUR, False),
      cell_alignment = Some LEFT\<rparr>"

text \<open>A row of data: the cells beyond the last column are skipped.\<close>

definition data_row :: "nat \<Rightarrow> ustring list \<Rightarrow> table_cell list" where
  "data_row cols cells =
     map data_cell (take cols cells) @ replicate (cols - length cells) empty_cell"

definition add_table_with_caption :: "document \<Rightarrow> table_el \<Rightarrow> ustring \<Rightarrow> exn + document" where
  "add_table_with_caption d tbl caption_text_full =
     (let (table_num_text, table_title_text) =
            (case label_match BIAO caption_text_full of
               None \<Rightarrow> (BIAO # asc ''X.X'', caption_text_full)
             | Some (g1, g2) \<Rightarrow> (strip g1, strip g2));
          d1 = add_paragraph d (caption_paragraph table_num_text table_title_text);
          bracketed = [91] @ caption_text_full @ [93];
          headers = (case th_texts tbl of
                       [] \<Rightarrow> []
                     | h # hs \<Rightarrow>
                         if contains table_title_text h then strip (replace bracketed [] h) # hs
                         else h # hs)
      in case tbody_rows tbl of
           None \<Rightarrow> Inl AttributeError
         | Some rows_data \<Rightarrow>
             if rows_data = [] \<and> headers = [] then Inr d1
             else
               let cols = length (if headers \<noteq> [] then headers else hd rows_data);
                   header_row =
                     map header_cell
                       (case headers of
                          [] \<Rightarrow> []
                        | h # hs \<Rightarrow>
                            (if contains bracketed h then strip (replace bracketed [] h) else h) # hs);
                   table_rows =
                     (if headers \<noteq> [] then header_row # map (data_row cols) rows_data
                      else map header_cell (hd rows_data) # map (data_row cols) (tl rows_data))
               in Inr (add_paragraph (add_block d1 (Table_Block table_rows)) empty_line))"

section \<open>The traversal: \<open>markdown_to_word\<close>\<close>

text \<open>
  The parsed manuscript. The traversal reads of a top-level node its tag name and texts,
  which the element carries: the text of a heading or paragraph (\<open>get_text(strip=True)\<close>),
  the \<open>alt\<close> and \<open>src\<close> of the first image in a paragraph, the texts of the items of a
  list, the code of a \<open>pre\<close> block with whether its class is \<open>language-mermaid\<close>. A
  \<open>NavigableString\<close> has no tag name; \<open>Other_Tag\<close> is any tag the traversal has no branch
  for, such as the \<open>div\<close> of the footnotes. The texts are those of the tree after
  \<open>preprocess_html\<close> has put \<open>[^N]\<close> in the place of each footnote reference.

  \<open>footnote_items\<close> lists, for each \<open>li\<close> of \<open>div.footnote ol li\<close>, the stripped text of
  its first paragraph once its anchors are removed, \<open>None\<close> for an item with no paragraph.
\<close>

datatype element =
    Navigable_String
  | H1 ustring
  | H2 ustring
  | H3 ustring
  | H4 ustring
  | H5 ustring
  | P "(ustring \<times> ustring) option" ustring
  | UL "ustring list"
  | OL "ustring list"
  | Table table_el
  | Pre "(ustring \<times> bool) option"
  | Hr
  | Other_Tag

record soup =
  children :: "element list"
  footnote_items :: "ustring option list"

text \<open>
  \<open>ReferencesList\<close> is a global of the module: \<open>preprocess_html\<close> takes the list as it
  finds it and appends the texts of the footnotes.
\<close>

definition preprocess_html :: "ustring list \<Rightarrow> soup \<Rightarrow> ustring list" where
  "preprocess_html ReferencesList sp =
     foldl (\<lambda>refs item. case item of None \<Rightarrow> refs | Some t \<Rightarrow> refs @ [t])
       ReferencesList (footnote_items sp)"

record state =
  doc :: document
  current_chapter_num_str :: ustring
  main_text_started :: bool
  toc_items :: "(nat \<times> ustring option) list"
  files :: "ustring set"
  diagrams :: nat

definition ZHAIYAO :: ustring where "ZHAIYAO = [25688, 35201]"
definition ABSTRACT :: ustring where "ABSTRACT = asc ''ABSTRACT''"
definition CANKAOWENXIAN :: ustring where "CANKAOWENXIAN = [21442, 32771, 25991, 29486]"
definition ZHIXIE :: ustring where "ZHIXIE = [33268, 35874]"

fun is_h1 :: "element \<Rightarrow> bool" where
  "is_h1 (H1 t) = True"
| "is_h1 _ = False"

text \<open>
  The inner loops of the two abstracts: every paragraph up to the next first-level heading
  becomes a paragraph of the abstract, in one font for both scripts.
\<close>

definition abstract_body :: "document \<Rightarrow> ustring \<Rightarrow> element list \<Rightarrow> document" where
  "abstract_body d font els =
     foldl (\<lambda>d el. case el of
                      P img abstract_content \<Rightarrow>
                        add_styled_paragraph d abstract_content font font SIZE_FOUR
                          (styled_defaults\<lparr>first_line_indent_cm := Some (7 / 10),
                             fixed_line_height_pt := Some LINE_SPACING_FIXED_20PT,
                             alignment := JUSTIFY\<rparr>)
                    | _ \<Rightarrow> d)
       d (takeWhile (\<lambda>el. \<not> is_h1 el) els)"

text \<open>
  The elements the traversal goes on with after an element: the abstracts take the
  elements up to the next first-level heading, and the English abstract first skips one
  element, whatever it is.
\<close>

definition remaining :: "element \<Rightarrow> element list \<Rightarrow> element list" where
  "remaining el rest =
     (case el of
        H1 title_text \<Rightarrow>
          if title_text = ZHAIYAO \<and> \<not> contains ABSTRACT title_text
          then dropWhile (\<lambda>el. \<not> is_h1 el) rest
          else if title_text = ABSTRACT then dropWhile (\<lambda>el. \<not> is_h1 el) (drop 1 rest)
          else rest
      | _ \<Rightarrow> rest)"

definition start_main_text :: "state \<Rightarrow> state" where
  "start_main_text st =
     (if \<not> main_text_started st then st\<lparr>doc := add_section (doc st), main_text_started := True\<rparr>
      else st)"

text \<open>A heading that goes to the document and to the entries of the table of contents.\<close>

definition heading_step :: "state \<Rightarrow> ustring \<Rightarrow> nat \<Rightarrow> bool \<Rightarrow> exn + state" where
  "heading_step st text_content level in_toc =
     (case add_heading text_content level of
        None \<Rightarrow> Inl TypeError
      | Some (p, toc_entry_text) \<Rightarrow>
          Inr (st\<lparr>doc := add_paragraph (doc st) p,
                   toc_items := (if in_toc then toc_items st @ [(level, toc_entry_text)]
                                 else toc_items st)\<rparr>))"

text \<open>The loop that drains the list of references under the heading of the references.\<close>

definition reference_paragraph :: "nat \<Rightarrow> ustring \<Rightarrow> para" where
  "reference_paragraph ref_idx ref =
     styled_paragraph ([91] @ str_nat (ref_idx + 1) @ [93, 32] @ ref)
       FONT_SONGTI FONT_TIMES_NEW_ROMAN SIZE_SMALL_FOUR
       (styled_defaults\<lparr>line_spacing_val := LINE_SPACING_1_25, first_line_indent_cm := Some (7 / 10),
          is_reference := True\<rparr>)"

definition drain_references :: "document \<Rightarrow> ustring list \<Rightarrow> document" where
  "drain_references d ReferencesList =
     foldl (\<lambda>d (ref_idx, ref). add_paragraph d (reference_paragraph ref_idx ref))
       d (enumerate 0 ReferencesList)"

text \<open>An item of a list: a source line of the bibliography, or a plain item.\<close>

definition list_item_paragraph :: "bool \<Rightarrow> nat \<Rightarrow> ustring \<Rightarrow> para" where
  "list_item_paragraph ordered item_idx item_text =
     (case footnote_item_match item_text of
        Some (ref_num, rest) \<Rightarrow>
          (styled_paragraph ([91] @ ref_num @ [93, 32] @ strip rest)
             FONT_SONGTI FONT_TIMES_NEW_ROMAN SIZE_SMALL_FOUR
             (styled_defaults\<lparr>line_spacing_val := LINE_SPACING_1_25, alignment := LEFT\<rparr>))
            \<lparr>p_left_indent := Some (Cm (7 / 10)), p_first_line_indent := Some (Cm (- (7 / 10)))\<rparr>
      | None \<Rightarrow>
          styled_paragraph
            ((if ordered then str_nat (item_idx + 1) @ asc ''. '' else asc ''- '') @ item_text)
            FONT_SONGTI FONT_TIMES_NEW_ROMAN SIZE_SMALL_FOUR
            (styled_defaults\<lparr>line_spacing_val := LINE_SPACING_1_25,
               first_line_indent_cm := Some (7 / 10), space_before_pt := 2, space_after_pt := 2\<rparr>))"

definition list_step :: "state \<Rightarrow> bool \<Rightarrow> ustring list \<Rightarrow> state" where
  "list_step st ordered items =
     st\<lparr>doc := foldl (\<lambda>d (item_idx, item_text).
                         add_paragraph d (list_item_paragraph ordered item_idx item_text))
                 (doc st) (enumerate 0 items)\<rparr>"

subsection \<open>Diagrams\<close>

text \<open>
  The diagram renderer is an external command: it returns, with what it printed on the
  error stream, or it fails. The failures the source handles are a non-zero exit status,
  a timeout and a command that is not found; any other exception of the call goes
  through. Whether a call leaves an image file at the output path is a separate fact about
  the renderer: a renderer that returns is expected to have written the image, one that
  fails may have written it or not. When the command is not found, nothing runs and
  nothing is written.
\<close>

datatype render_outcome =
    Rendered ustring
  | Called_Process_Error ustring
  | Timeout_Expired
  | Command_Not_Found
  | Call_Raises exn

text \<open>
  The collaborators of a conversion: the Markdown parser with the tree builder behind it,
  the name the \<open>n\<close>-th temporary diagram source gets, what the renderer does with the
  \<open>n\<close>-th diagram and whether it leaves an image file, whether the sink takes a file as a
  picture, and whether the document can be saved.
\<close>

record env =
  md_parser :: "ustring \<Rightarrow> soup"
  temp_name :: "nat \<Rightarrow> ustring"
  mmdc :: "nat \<Rightarrow> ustring \<Rightarrow> render_outcome"
  mmdc_writes :: "nat \<Rightarrow> ustring \<Rightarrow> bool"
  picture_accepted :: "ustring \<Rightarrow> bool"
  save_raises :: "exn option"

text \<open>
  \<open>convert_mermaid_to_image_mmdc\<close> on the set of the files that exist: the path of the
  image or \<open>None\<close>, or the exception that goes through, and the files afterwards. The
  \<open>finally\<close> clause removes the diagram source in every case; the function never removes
  an image.
\<close>

definition convert_mermaid_to_image_mmdc ::
  "env \<Rightarrow> nat \<Rightarrow> ustring set \<Rightarrow> ustring \<Rightarrow> (exn + ustring option) \<times> ustring set" where
  "convert_mermaid_to_image_mmdc e n fs mermaid_code =
     (let temp_mmd_file = temp_name e n;
          files1 = insert temp_mmd_file fs;
          image_file_path = replace (asc ''.mmd'') (asc ''.png'') temp_mmd_file;
          files2 = (if mmdc_writes e n mermaid_code then insert image_file_path files1 else files1)
      in case mmdc e n mermaid_code of
           Rendered err \<Rightarrow> (Inr (Some image_file_path), files2 - {temp_mmd_file})
         | Called_Process_Error err \<Rightarrow> (Inr None, files2 - {temp_mmd_file})
         | Timeout_Expired \<Rightarrow> (Inr None, files2 - {temp_mmd_file})
         | Command_Not_Found \<Rightarrow> (Inr None, files1 - {temp_mmd_file})
         | Call_Raises x \<Rightarrow> (Inl x, files2 - {temp_mmd_file}))"

subsection \<open>One element\<close>

definition title_paragraph :: "ustring \<Rightarrow> ustring \<Rightarrow> para" where
  "title_paragraph title ascii_font =
     (set_paragraph_formatting (new_paragraph None)
        (fmt_defaults\<lparr>alignment := CENTER, space_after_pt := emu_of_pt SIZE_THREE\<rparr>))
       \<lparr>runs := [set_run_font (add_run title) FONT_HEITI ascii_font SIZE_THREE True False]\<rparr>"

definition page_break_paragraph :: para where
  "page_break_paragraph = (new_paragraph None)\<lparr>runs := [(add_run [])\<lparr>run_special := Page_Break\<rparr>]\<rparr>"

definition h1_step :: "ustring list \<Rightarrow> state \<Rightarrow> ustring \<Rightarrow> element list \<Rightarrow> exn + state" where
  "h1_step ReferencesList st title_text rest =
     (if title_text = ZHAIYAO \<and> \<not> contains ABSTRACT title_text then
        let d1 = add_paragraph (doc st) (title_paragraph [25688, 32, 32, 32, 35201] FONT_HEITI);
            d2 = abstract_body d1 FONT_KAITI rest
        in Inr (st\<lparr>doc := add_paragraph d2 (new_paragraph None)\<rparr>)
      else if title_text = ABSTRACT then
        let d1 = add_styled_paragraph (doc st) [] FONT_SONGTI FONT_TIMES_NEW_ROMAN SIZE_SMALL_FOUR
                   (styled_defaults\<lparr>space_after_pt := emu_of_pt SIZE_SMALL_FOUR\<rparr>);
            d2 = add_paragraph d1 (title_paragraph ABSTRACT FONT_TIMES_NEW_ROMAN);
            d3 = abstract_body d2 FONT_TIMES_NEW_ROMAN (drop 1 rest);
            d4 = add_section (add_toc_placeholder d3)
        in Inr (st\<lparr>doc := d4, main_text_started := True\<rparr>)
      else if title_text \<noteq> [] \<and> hd title_text = DI \<and> ZHANG \<in> set title_text then
        let st1 = start_main_text st;
            st2 = (case chap_match title_text of
                     Some g \<Rightarrow> st1\<lparr>current_chapter_num_str := g\<rparr>
                   | None \<Rightarrow> st1)
        in heading_step st2 title_text 1 True
      else if title_text = CANKAOWENXIAN then
        let st1 = start_main_text st;
            st2 = st1\<lparr>doc := add_paragraph (doc st1) page_break_paragraph\<rparr>
        in case heading_step st2 title_text 1 True of
             Inl x \<Rightarrow> Inl x
           | Inr st3 \<Rightarrow> Inr (st3\<lparr>doc := drain_references (doc st3) ReferencesList\<rparr>)
      else if title_text = ZHIXIE then heading_step (start_main_text st) title_text 1 True
      else Inr st)"

definition failure_text :: "ustring \<Rightarrow> ustring \<Rightarrow> ustring" where
  "failure_text fig_num_text caption_content =
     asc ''[Failed to render Mermaid diagram: '' @ fig_num_text @ [32] @ caption_content @ [93]"

definition pre_step :: "env \<Rightarrow> state \<Rightarrow> (ustring \<times> bool) option \<Rightarrow> exn + state" where
  "pre_step e st code_tag =
     (case code_tag of
        None \<Rightarrow> Inr st
      | Some (code_content, is_mermaid) \<Rightarrow>
          if is_mermaid then
            (case mermaid_caption_match code_content of
               Some (g1, g2) \<Rightarrow>
                 let fig_num_text = strip g1;
                     caption_content = strip g2;
                     mermaid_code_for_render = join [10] (tl (splitlines code_content));
                     (image_file, files1) =
                       convert_mermaid_to_image_mmdc e (diagrams st) (files st) mermaid_code_for_render;
                     st1 = st\<lparr>files := files1, diagrams := diagrams st + 1\<rparr>
                 in (case image_file of
                       Inl x \<Rightarrow> Inl x
                     | Inr (Some path) \<Rightarrow>
                         if path \<in> files1
                         then Inr (st1\<lparr>doc := add_image_with_caption (doc st) True
                                              (picture_accepted e path) path caption_content fig_num_text,
                                        files := files1 - {path}\<rparr>)
                         else Inl FileNotFoundError
                     | Inr None \<Rightarrow>
                         Inr (st1\<lparr>doc := add_styled_paragraph (doc st)
                                     (failure_text fig_num_text caption_content)
                                     FONT_SONGTI FONT_TIMES_NEW_ROMAN SIZE_SMALL_FOUR
                                     (styled_defaults\<lparr>line_spacing_val := LINE_SPACING_1_25\<rparr>)\<rparr>))
             | None \<Rightarrow>
                 Inr (st\<lparr>doc := add_styled_paragraph (doc st)
                            (asc ''[Mermaid diagram - caption not found]'')
                            FONT_SONGTI FONT_TIMES_NEW_ROMAN SIZE_SMALL_FOUR
                            (styled_defaults\<lparr>line_spacing_val := LINE_SPACING_1_25\<rparr>)\<rparr>))
          else
            Inr (st\<lparr>doc := add_paragraph (doc st)
                       ((styled_paragraph code_content (asc ''Courier New'') (asc ''Courier New'')
                           (SIZE_SMALL_FOUR - 2)
                           (styled_defaults\<lparr>line_spacing_val := 1, space_before_pt := 5,
                              space_after_pt := 5\<rparr>))
                          \<lparr>p_left_indent := Some (Cm 1)\<rparr>)\<rparr>))"

definition process_element :: "env \<Rightarrow> ustring list \<Rightarrow> state \<Rightarrow> element \<Rightarrow> element list \<Rightarrow> exn + state" where
  "process_element e ReferencesList st el rest =
     (case el of
        Navigable_String \<Rightarrow> Inr st
      | H1 title_text \<Rightarrow> h1_step ReferencesList st title_text rest
      | H2 t \<Rightarrow> heading_step st t 2 True
      | H3 t \<Rightarrow> heading_step st t 3 True
      | H4 t \<Rightarrow> heading_step st t 4 False
      | H5 t \<Rightarrow>
          Inr (st\<lparr>doc := add_styled_paragraph (doc st) t FONT_SONGTI FONT_TIMES_NEW_ROMAN
                      SIZE_SMALL_FOUR (styled_defaults\<lparr>line_spacing_val := LINE_SPACING_1_25\<rparr>)\<rparr>)
      | P img para_text \<Rightarrow>
          (case img of
             Some (alt_text, img_src) \<Rightarrow>
               (case label_match TU alt_text of
                  Some (g1, g2) \<Rightarrow>
                    Inr (st\<lparr>doc := add_image_with_caption (doc st) (img_src \<in> files st)
                               (picture_accepted e img_src) img_src (strip g2) (strip g1)\<rparr>)
                | None \<Rightarrow>
                    Inr (st\<lparr>doc := add_image_with_caption (doc st) (img_src \<in> files st)
                               (picture_accepted e img_src) img_src
                               (if alt_text \<noteq> [] then alt_text else asc ''Untitled Image'')
                               (TU # asc ''?.?'')\<rparr>))
           | None \<Rightarrow>
               if para_text \<noteq> []
               then Inr (st\<lparr>doc := add_styled_paragraph (doc st) para_text FONT_SONGTI
                           FONT_TIMES_NEW_ROMAN SIZE_SMALL_FOUR
                           (styled_defaults\<lparr>line_spacing_val := LINE_SPACING_1_25,
                              first_line_indent_cm := Some (7 / 10)\<rparr>)\<rparr>)
               else Inr st)
      | UL items \<Rightarrow> Inr (list_step st False items)
      | OL items \<Rightarrow> Inr (list_step st True items)
      | Table tbl \<Rightarrow>
          (let caption_text_full =
                 (case th_texts tbl of
                    [] \<Rightarrow> []
                  | first_th # ths \<Rightarrow> (case caption_search first_th of Some g \<Rightarrow> g | None \<Rightarrow> []))
           in case add_table_with_caption (doc st) tbl
                     (if caption_text_full \<noteq> [] then caption_text_full
                      else BIAO # asc ''?.? Unknown Table'') of
                Inl x \<Rightarrow> Inl x
              | Inr d \<Rightarrow> Inr (st\<lparr>doc := d\<rparr>))
      | Pre code_tag \<Rightarrow> pre_step e st code_tag
      | Hr \<Rightarrow> Inr st
      | Other_Tag \<Rightarrow> Inr st)"

subsection \<open>The loop and the finalizer\<close>

function main_loop :: "env \<Rightarrow> ustring list \<Rightarrow> state \<Rightarrow> element list \<Rightarrow> exn + state" where
  "main_loop e ReferencesList st [] = Inr st"
| "main_loop e ReferencesList st (el # rest) =
     (case process_element e ReferencesList st el rest of
        Inl x \<Rightarrow> Inl x
      | Inr st' \<Rightarrow> main_loop e ReferencesList st' (remaining el rest))"
  by pat_completeness auto
termination
proof (relation "measure (\<lambda>(e, refs, st, els). length els)")
  show "wf (measure (\<lambda>(e :: env, refs :: ustring list, st :: state, els :: element list). length els))"
    by simp
next
  fix e :: env and ReferencesList :: "ustring list" and st st' :: state
    and el :: element and rest :: "element list"
  have "length (dropWhile (\<lambda>el. \<not> is_h1 el) (drop 1 rest)) \<le> length rest"
    using length_dropWhile_le [of "\<lambda>el. \<not> is_h1 el" "drop 1 rest"] by simp
  then have "length (remaining el rest) \<le> length rest"
    by (simp add: remaining_def length_dropWhile_le split: element.splits)
  then show "((e, ReferencesList, st', remaining el rest), (e, ReferencesList, st, el # rest))
               \<in> measure (\<lambda>(e, refs, st, els). length els)"
    by simp
qed

definition A4_section :: "doc_section \<Rightarrow> doc_section" where
  "A4_section sec =
     sec\<lparr>page_height := Some (Cm (297 / 10)), page_width := Some (Cm 21),
         margins := Some (Cm MARGIN_CM, Cm MARGIN_CM, Cm MARGIN_CM, Cm MARGIN_CM)\<rparr>"

definition initial_state :: "ustring set \<Rightarrow> state" where
  "initial_state fs =
     \<lparr>doc = Document\<lparr>sections := map A4_section (sections Document)\<rparr>,
      current_chapter_num_str = [], main_text_started = False, toc_items = [],
      files = fs, diagrams = 0\<rparr>"

text \<open>
  \<open>markdown_to_word\<close>: the document that is saved, or the exception that ends the
  conversion, and the global list of references as the conversion leaves it. \<open>config\<close> is
  the dictionary read from the configuration file.
\<close>

definition ARTICAL_HEADER :: ustring where "ARTICAL_HEADER = asc ''Artical-Header''"

definition markdown_to_word ::
  "env \<Rightarrow> (ustring \<rightharpoonup> ustring) \<Rightarrow> ustring list \<Rightarrow> ustring set \<Rightarrow> ustring \<Rightarrow>
     (exn + document) \<times> ustring list" where
  "markdown_to_word e config ReferencesList fs md_content =
     (let sp = md_parser e md_content;
          refs = preprocess_html ReferencesList sp
      in (case main_loop e refs (initial_state fs) (children sp) of
            Inl x \<Rightarrow> Inl x
          | Inr st \<Rightarrow>
              (case config ARTICAL_HEADER of
                 None \<Rightarrow> Inl KeyError
               | Some header_text_content \<Rightarrow>
                   (case save_raises e of
                      Some x \<Rightarrow> Inl x
                    | None \<Rightarrow>
                        Inr ((doc st)\<lparr>sections :=
                               apply_headers_footers header_text_content (sections (doc st))\<rparr>))),
          refs))"

section \<open>The script\<close>

text \<open>
  What an invocation finds: the configuration file read at the load of the module, the
  arguments as the parser gives them (\<open>None\<close> when it rejects the command line), the files
  that exist, and what reading the manuscript gives. The result is the exit status and
  the lines of the console: an exception that nothing catches ends the process with
  status 1 and its trace.
\<close>

record invocation =
  config_json :: "exn + (ustring \<rightharpoonup> ustring)"
  args :: "(ustring \<times> ustring) option"
  existing_files :: "ustring set"
  read_md :: "exn + ustring"

datatype console_line =
    Usage
  | Markdown_Not_Found ustring
  | Document_Saved ustring
  | Unexpected_Error exn
  | Trace exn

record process_result =
  exit_status :: nat
  console :: "console_line list"
  saved :: "(ustring \<times> document) option"

definition script :: "env \<Rightarrow> invocation \<Rightarrow> process_result" where
  "script e iv =
     (case config_json iv of
        Inl x \<Rightarrow> \<lparr>exit_status = 1, console = [Trace x], saved = None\<rparr>
      | Inr config \<Rightarrow>
          (case args iv of
             None \<Rightarrow> \<lparr>exit_status = 2, console = [Usage], saved = None\<rparr>
           | Some (md_file, docx_file) \<Rightarrow>
               if md_file \<notin> existing_files iv
               then \<lparr>exit_status = 1, console = [Markdown_Not_Found md_file], saved = None\<rparr>
               else
                 (case read_md iv of
                    Inl x \<Rightarrow> \<lparr>exit_status = 1, console = [Trace x], saved = None\<rparr>
                  | Inr md_content_main \<Rightarrow>
                      (case fst (markdown_to_word e config [] (existing_files iv) md_content_main) of
                         Inl x \<Rightarrow>
                           \<lparr>exit_status = 0, console = [Unexpected_Error x, Trace x], saved = None\<rparr>
                       | Inr d \<Rightarrow>
                           \<lparr>exit_status = 0, console = [Document_Saved docx_file],
                            saved = Some (docx_file, d)\<rparr>))))"

section \<open>Sample collaborators and inputs\<close>

text \<open>
  For the examples: a parser that gives one fixed tree, a renderer command that is not
  installed, a sink that takes every picture, and a document that can be saved.
\<close>

definition sample_env :: "soup \<Rightarrow> env" where
  "sample_env sp =
     \<lparr>md_parser = (\<lambda>md. sp),
      temp_name = (\<lambda>n. asc ''/tmp/d'' @ str_nat n @ asc ''.mmd''),
      mmdc = (\<lambda>n code. Command_Not_Found),
      mmdc_writes = (\<lambda>n code. False),
      picture_accepted = (\<lambda>path. True),
      save_raises = None\<rparr>"

definition empty_soup :: soup where
  "empty_soup = \<lparr>children = [], footnote_items = []\<rparr>"

definition sample_invocation :: "(exn + (ustring \<rightharpoonup> ustring)) \<Rightarrow> ustring set \<Rightarrow> invocation" where
  "sample_invocation cfg fs =
     \<lparr>config_json = cfg, args = Some (asc ''thesis.md'', asc ''thesis.docx''),
      existing_files = fs, read_md = Inr []\<rparr>"

definition sample_config :: "ustring \<rightharpoonup> ustring" where
  "sample_config = [ARTICAL_HEADER \<mapsto> asc ''Thesis'']"

definition references_soup :: soup where
  "references_soup =
     \<lparr>children = [Navigable_String, H1 CANKAOWENXIAN],
      footnote_items = [Some (asc ''A''), Some (asc ''B''), Some (asc ''C'')]\<rparr>"

definition one_reference_soup :: soup where
  "one_reference_soup = \<lparr>children = [H1 CANKAOWENXIAN], footnote_items = [Some (asc ''A'')]\<rparr>"


definition thesis_soup :: soup where
  "thesis_soup =
     \<lparr>children = [H1 ZHAIYAO, Navigable_String, H1 ABSTRACT, Navigable_String,
                  H1 [31532, 19968, 31456, 32, 24341, 35328], Navigable_String,
                  H1 CANKAOWENXIAN],
      footnote_items = [Some (asc ''A''), Some (asc ''B'')]\<rparr>"






text \<open>
  A section whose header and footer are its own and hold one paragraph with the text
  \<open>old\<close>.
\<close>

definition titled_section :: doc_section where
  "titled_section =
     \<lparr>page_height = None, page_width = None, margins = None,
      header = \<lparr>is_linked_to_previous = False,
                 hf_paragraphs = [(new_paragraph None)\<lparr>runs := [add_run (asc ''old'')]\<rparr>]\<rparr>,
      footer = \<lparr>is_linked_to_previous = False,
                 hf_paragraphs = [(new_paragraph None)\<lparr>runs := [add_run (asc ''old'')]\<rparr>]\<rparr>\<rparr>"



text \<open>
  The last paragraph of the document that a step leaves, when the step returns and the
  last block of the body is a paragraph.
\<close>

definition last_paragraph :: "exn + state \<Rightarrow> para option" where
  "last_paragraph r =
     (case r of
        Inl x \<Rightarrow> None
      | Inr st \<Rightarrow> (case last (body (doc st)) of Para p \<Rightarrow> Some p | _ \<Rightarrow> None))"


section \<open>Properties of the inline text segmenter\<close>

lemma concat_re_split: "concat (re_split cls s) = s"
proof (induction cls s rule: re_split.induct)
  case (1 cls s)
  show ?case
  proof (cases "dropWhile (\<lambda>c. \<not> cls c) s = []")
    case True
    then have "takeWhile (\<lambda>c. \<not> cls c) s = s"
      by (metis takeWhile_dropWhile_id append_Nil2)
    with True show ?thesis by (subst re_split.simps) simp
  next
    case False
    have "concat (re_split cls (dropWhile cls (dropWhile (\<lambda>c. \<not> cls c) s)))
            = dropWhile cls (dropWhile (\<lambda>c. \<not> cls c) s)"
      using "1.IH" [OF refl refl False] .
    with False show ?thesis
      by (subst re_split.simps) (simp add: Let_def)
  qed
qed

lemma run_text_set_run_font [simp]: "run_text (set_run_font r e a s b i) = run_text r"
  by (simp add: set_run_font_def)

lemma run_text_add_run [simp]: "run_text (add_run t) = t"
  by (simp add: add_run_def)

lemma citation_match_Nil [simp]: "citation_match [] = None"
  by (simp add: citation_match_def)

lemma ref_match_in_text_Nil [simp]: "ref_match_in_text [] = None"
  by (simp add: ref_match_in_text_def)

lemma sub_part_runs_text: "concat (map run_text (sub_part_runs e f s a p)) = p"
  by (simp add: sub_part_runs_def)

lemma concat_sub_parts:
  "concat (map run_text (concat (map (sub_part_runs e f s a) ps))) = concat ps"
  by (induction ps) (simp_all add: sub_part_runs_text)

text \<open>
  What one part contributes to the text of the paragraph: the rendered marker when the
  part begins with one, the part itself otherwise.
\<close>

lemma part_runs_text:
  "concat (map run_text (part_runs e f s a p)) =
     (case rendered_marker (is_heading a) p of Some m \<Rightarrow> m | None \<Rightarrow> p)"
  by (cases "p = []")
     (simp_all add: part_runs_def rendered_marker_def concat_sub_parts concat_re_split
           split: option.splits)

lemma concat_parts_text:
  "\<forall>p \<in> set ps. \<forall>m. rendered_marker (is_heading a) p = Some m \<longrightarrow> m = p \<Longrightarrow>
   concat (map run_text (concat (map (part_runs e f s a) ps))) = concat ps"
proof (induction ps)
  case Nil
  show ?case by simp
next
  case (Cons p ps)
  then have "concat (map run_text (part_runs e f s a p)) = p"
    by (auto simp: part_runs_text split: option.splits)
  with Cons show ?case by simp
qed

lemma runs_set_paragraph_formatting [simp]: "runs (set_paragraph_formatting p a) = runs p"
  by (simp add: set_paragraph_formatting_def Let_def split: option.splits)

lemma styled_paragraph_text:
  assumes "is_reference a \<or>
           (\<forall>p \<in> set (re_split latin t). \<forall>m. rendered_marker (is_heading a) p = Some m \<longrightarrow> m = p)"
  shows "paragraph_text (styled_paragraph t e f s a) = t"
proof (cases "is_reference a")
  case True
  then show ?thesis by (simp add: paragraph_text_def styled_paragraph_def Let_def)
next
  case False
  with assms have
    "concat (map run_text (concat (map (part_runs e f s a) (re_split latin t))))
       = concat (re_split latin t)"
    by (intro concat_parts_text) simp
  with False show ?thesis
    by (simp add: paragraph_text_def styled_paragraph_def Let_def concat_re_split)
qed

subsection \<open>Evaluation on small texts\<close>

lemma latin_bracket_digits:
  "latin 91" "latin 93" "latin 94" "latin 53" "latin 55" "latin 51" "latin 97" "latin 98"
  "\<not> latin 35265" "\<not> latin 12290"
  by (simp_all add: latin_def is_ascii_punct_def is_space_def)

lemma split_jian_5: "re_split latin [35265, 91, 53, 93] = [ [35265], [91, 53, 93], [] ]"
  by (simp add: re_split.simps [of _ "[35265, 91, 53, 93]"] re_split.simps [of _ "[]"]
        latin_bracket_digits)

lemma split_hat_7: "re_split latin [91, 94, 55, 93] = [ [], [91, 94, 55, 93], [] ]"
  by (simp add: re_split.simps [of _ "[91, 94, 55, 93]"] re_split.simps [of _ "[]"]
        latin_bracket_digits)


lemma split_3_ab: "re_split latin [35265, 91, 51, 93, 97, 98] = [ [35265], [91, 51, 93, 97, 98], [] ]"
  by (simp add: re_split.simps [of _ "[35265, 91, 51, 93, 97, 98]"] re_split.simps [of _ "[]"]
        latin_bracket_digits)


lemma split_nospace_jian: "re_split latin_nospace [35265] = [ [35265] ]"
  by (simp add: re_split.simps [of _ "[35265]"] latin_nospace_def is_ascii_punct_def)

lemma split_nospace_stop: "re_split latin_nospace [12290] = [ [12290] ]"
  by (simp add: re_split.simps [of _ "[12290]"] latin_nospace_def is_ascii_punct_def)

lemma citation_match_evals:
  "citation_match [35265] = None" "citation_match [12290] = None"
  "citation_match [91, 53, 93] = Some [53]"
  "citation_match [91, 94, 55, 93] = Some [55]"
  "citation_match [91, 51, 93] = Some [51]"
  "citation_match [91, 51, 93, 97, 98] = Some [51]"
  by (simp_all add: citation_match_def is_digit_def)

lemma ref_match_evals:
  "ref_match_in_text [35265] = None" "ref_match_in_text [12290] = None"
  by (simp_all add: ref_match_in_text_def)

lemma rendered_marker_evals:
  "rendered_marker h [] = None" "rendered_marker h [35265] = None"
  "rendered_marker h [12290] = None" "rendered_marker h [91, 51, 93] = Some [91, 51, 93]"
  by (simp_all add: rendered_marker_def citation_match_evals ref_match_evals)

lemma runs_styled_paragraph:
  "\<not> is_reference a \<Longrightarrow>
   runs (styled_paragraph t e f s a) = concat (map (part_runs e f s a) (re_split latin t))"
  by (simp add: styled_paragraph_def Let_def)

lemma part_runs_Nil [simp]: "part_runs e f s a [] = []"
  by (simp add: part_runs_def)

lemma script_part_runs:
  "\<not> latin c \<Longrightarrow> \<not> latin_nospace c \<Longrightarrow> c \<noteq> 91 \<Longrightarrow>
   map (\<lambda>r. (run_text r, font_superscript r)) (part_runs e f s a [c]) = [([c], None)]"
  by (simp add: part_runs_def citation_match_def ref_match_in_text_def match_class_line_def
        re_split.simps [of _ "[c]"] sub_part_runs_def set_run_font_def add_run_def)

lemma jian_part_runs:
  "map (\<lambda>r. (run_text r, font_superscript r)) (part_runs e f s a [35265]) = [([35265], None)]"
  by (rule script_part_runs) (simp_all add: latin_def latin_nospace_def is_ascii_punct_def is_space_def)

lemma marker_part_runs:
  "citation_match p = Some n \<Longrightarrow>
   map (\<lambda>r. (run_text r, font_superscript r)) (part_runs e f s a p) = [(91 # n @ [93], Some True)]"
  by (auto simp: part_runs_def set_run_font_def add_run_def)

text \<open>
  C1. A body paragraph whose text is U+89C1 followed by \<open>[5]\<close>: the plain marker is
  rendered as \<open>[5]\<close>, and its run has the superscript flag set. The first pattern,
  \<^verbatim>\<open>(\[\^?)(\d+)(\])\<close>, takes the marker with or without the hat, so the branch for
  plain markers is never reached by a single number.
\<close>

theorem plain_marker_is_superscripted:
  "map (\<lambda>r. (run_text r, font_superscript r))
     (runs (styled_paragraph [35265, 91, 53, 93] FONT_SONGTI FONT_TIMES_NEW_ROMAN SIZE_SMALL_FOUR
        (styled_defaults\<lparr>first_line_indent_cm := Some (7 / 10)\<rparr>)))
   = [([35265], None), ([91, 53, 93], Some True)]"
proof -
  have "\<not> is_reference (styled_defaults\<lparr>first_line_indent_cm := Some (7 / 10)\<rparr>)"
    by (simp add: styled_defaults_def)
  then show ?thesis
    by (simp add: runs_styled_paragraph split_jian_5 jian_part_runs
          marker_part_runs [OF citation_match_evals(3)])
qed











text \<open>
  The text that follows a marker in the same part is another matter: the branch for
  markers adds the marker and nothing else, so of U+89C1 \<open>[3]ab\<close> the paragraph keeps
  U+89C1 \<open>[3]\<close>. The branches for the other parts add the whole part.
\<close>

lemma text_after_marker_is_dropped:
  "concat (map run_text (runs (styled_paragraph [35265, 91, 51, 93, 97, 98]
     FONT_SONGTI FONT_TIMES_NEW_ROMAN SIZE_SMALL_FOUR styled_defaults)))
   = [35265, 91, 51, 93]"
  by (simp add: runs_styled_paragraph styled_defaults_def split_3_ab part_runs_text
        rendered_marker_def citation_match_evals ref_match_evals)

text \<open>
  C3. In a paragraph with the heading role the marker \<open>[^7]\<close> is rendered as \<open>[7]\<close> with the
  superscript flag set, as it is in body text: the test of \<open>is_heading\<close> guards the branch
  for plain markers only.
\<close>

theorem hat_marker_in_heading_is_superscripted:
  "map (\<lambda>r. (run_text r, font_superscript r))
     (runs (styled_paragraph [91, 94, 55, 93] FONT_HEITI FONT_TIMES_NEW_ROMAN SIZE_FOUR
        (styled_defaults\<lparr>is_heading := True\<rparr>)))
   = [([91, 55, 93], Some True)]"
proof -
  have "\<not> is_reference (styled_defaults\<lparr>is_heading := True\<rparr>)"
    by (simp add: styled_defaults_def)
  then show ?thesis
    by (simp add: runs_styled_paragraph split_hat_7 marker_part_runs [OF citation_match_evals(4)])
qed

section \<open>Properties of the traversal\<close>

text \<open>
  Every emitter appends blocks to the body. Only \<open>add_section\<close> adds a section, and only
  the first-level headings call it.
\<close>

lemma body_add_paragraph [simp]: "body (add_paragraph d p) = body d @ [Para p]"
  by (simp add: add_paragraph_def add_block_def)

lemma sections_add_paragraph [simp]: "sections (add_paragraph d p) = sections d"
  by (simp add: add_paragraph_def add_block_def)

lemma body_add_block [simp]: "body (add_block d b) = body d @ [b]"
  by (simp add: add_block_def)

lemma sections_add_block [simp]: "sections (add_block d b) = sections d"
  by (simp add: add_block_def)

lemma body_add_section [simp]: "body (add_section d) = body d @ [Section_Break]"
  by (simp add: add_section_def)

lemma length_sections_add_section [simp]:
  "length (sections (add_section d)) = Suc (length (sections d))"
  by (simp add: add_section_def)

lemma body_add_styled_paragraph [simp]:
  "body (add_styled_paragraph d t ea f s a) = body d @ [Para (styled_paragraph t ea f s a)]"
  by (simp add: add_styled_paragraph_def)

lemma sections_add_styled_paragraph [simp]:
  "sections (add_styled_paragraph d t ea f s a) = sections d"
  by (simp add: add_styled_paragraph_def)

lemma foldl_appends:
  assumes "\<And>d x. sections (f d x) = sections d"
      and "\<And>d x. \<exists>ext. body (f d x) = body d @ ext"
  shows "sections (foldl f d xs) = sections d \<and> (\<exists>ext. body (foldl f d xs) = body d @ ext)"
proof (induction xs arbitrary: d)
  case Nil
  show ?case by simp
next
  case (Cons x xs)
  from assms(2) obtain e1 where e1: "body (f d x) = body d @ e1" by blast
  from Cons [of "f d x"] obtain e2 where
    "sections (foldl f (f d x) xs) = sections (f d x)"
    "body (foldl f (f d x) xs) = body (f d x) @ e2" by blast
  with e1 assms(1) show ?case by simp
qed

lemma abstract_body_appends:
  "sections (abstract_body d font els) = sections d \<and>
   (\<exists>ext. body (abstract_body d font els) = body d @ ext)"
  unfolding abstract_body_def
  by (rule foldl_appends) (auto split: element.splits)

lemma drain_references_foldl:
  "foldl (\<lambda>d (ref_idx, ref). add_paragraph d (reference_paragraph ref_idx ref)) d (enumerate n refs)
   = d\<lparr>body := body d @ map (\<lambda>(i, r). Para (reference_paragraph i r)) (enumerate n refs)\<rparr>"
  by (induction refs arbitrary: d n) (simp_all add: add_paragraph_def add_block_def)

lemma body_drain_references:
  "body (drain_references d refs) =
     body d @ map (\<lambda>(i, r). Para (reference_paragraph i r)) (enumerate 0 refs)"
  by (simp add: drain_references_def drain_references_foldl)

lemma sections_drain_references [simp]: "sections (drain_references d refs) = sections d"
  by (simp add: drain_references_def drain_references_foldl)

lemma list_step_appends:
  "sections (doc (list_step st ordered items)) = sections (doc st) \<and>
   main_text_started (list_step st ordered items) = main_text_started st \<and>
   (\<exists>ext. body (doc (list_step st ordered items)) = body (doc st) @ ext)"
  unfolding list_step_def
  using foldl_appends [of "\<lambda>d (item_idx, item_text). add_paragraph d (list_item_paragraph ordered item_idx item_text)" "doc st" "enumerate 0 items"]
  by (simp add: case_prod_beta)

lemma add_toc_placeholder_appends:
  "sections (add_toc_placeholder d) = sections d \<and>
   (\<exists>ext. body (add_toc_placeholder d) = body d @ ext)"
  by (simp add: add_toc_placeholder_def Let_def)

lemma add_image_with_caption_appends:
  "sections (add_image_with_caption d ex ok path c f) = sections d \<and>
   (\<exists>ext. body (add_image_with_caption d ex ok path c f) = body d @ ext)"
  by (simp add: add_image_with_caption_def Let_def)

lemma add_table_with_caption_appends:
  "add_table_with_caption d tbl c = Inr d' \<Longrightarrow>
   sections d' = sections d \<and> (\<exists>ext. body d' = body d @ ext)"
  by (auto simp: add_table_with_caption_def Let_def split: option.splits prod.splits if_splits)


lemma heading_step_appends:
  "heading_step st t l b = Inr st' \<Longrightarrow>
   sections (doc st') = sections (doc st) \<and> main_text_started st' = main_text_started st \<and>
   (\<exists>ext. body (doc st') = body (doc st) @ ext)"
  by (auto simp: heading_step_def split: option.splits)

lemma pre_step_appends:
  "pre_step e st c = Inr st' \<Longrightarrow>
   sections (doc st') = sections (doc st) \<and> main_text_started st' = main_text_started st \<and>
   (\<exists>ext. body (doc st') = body (doc st) @ ext)"
  using add_image_with_caption_appends
  by (auto simp: pre_step_def Let_def split: option.splits prod.splits if_splits sum.splits)

lemma not_h1_step_appends:
  assumes "\<not> is_h1 el" and "process_element e refs st el rest = Inr st'"
  shows "sections (doc st') = sections (doc st) \<and> main_text_started st' = main_text_started st \<and>
         (\<exists>ext. body (doc st') = body (doc st) @ ext)"
proof (cases el)
  case (H1 t) with assms show ?thesis by simp
next
  case (Table tbl)
  with assms show ?thesis
    by (auto simp: process_element_def Let_def split: sum.splits dest: add_table_with_caption_appends)
next
  case (Pre c)
  with assms show ?thesis by (auto simp: process_element_def dest: pre_step_appends)
next
  case (P img t)
  with assms show ?thesis
    using add_image_with_caption_appends
    by (auto simp: process_element_def split: option.splits prod.splits if_splits)
qed (use assms list_step_appends in \<open>auto simp: process_element_def dest: heading_step_appends\<close>)


lemma ABSTRACT_eval: "ABSTRACT = [65, 66, 83, 84, 82, 65, 67, 84]"
  by (simp add: ABSTRACT_def asc_def)

lemma title_facts:
  "ZHAIYAO \<noteq> ABSTRACT" "CANKAOWENXIAN \<noteq> ZHAIYAO" "CANKAOWENXIAN \<noteq> ABSTRACT"
  "ZHIXIE \<noteq> ZHAIYAO" "ZHIXIE \<noteq> ABSTRACT" "ZHIXIE \<noteq> CANKAOWENXIAN"
  "ABSTRACT \<noteq> ZHAIYAO" "ZHAIYAO \<noteq> CANKAOWENXIAN" "ABSTRACT \<noteq> CANKAOWENXIAN"
  "\<not> contains ABSTRACT ZHAIYAO"
  "hd CANKAOWENXIAN \<noteq> DI" "hd ZHAIYAO \<noteq> DI" "hd ABSTRACT \<noteq> DI" "hd ZHIXIE \<noteq> DI"
  by (simp_all add: ABSTRACT_eval ZHAIYAO_def CANKAOWENXIAN_def ZHIXIE_def DI_def)

lemma body_start_main_text:
  "body (doc (start_main_text st)) =
     body (doc st) @ (if main_text_started st then [] else [Section_Break])"
  by (simp add: start_main_text_def)

lemma started_start_main_text [simp]: "main_text_started (start_main_text st)"
  by (simp add: start_main_text_def)

lemma start_main_text_started [simp]: "main_text_started st \<Longrightarrow> start_main_text st = st"
  by (simp add: start_main_text_def)

lemma h1_step_ZHAIYAO:
  "h1_step refs st ZHAIYAO rest =
     Inr (st\<lparr>doc := add_paragraph
                (abstract_body
                   (add_paragraph (doc st) (title_paragraph [25688, 32, 32, 32, 35201] FONT_HEITI))
                   FONT_KAITI rest)
                (new_paragraph None)\<rparr>)"
  by (simp add: h1_step_def title_facts Let_def)

lemma h1_step_ABSTRACT:
  "h1_step refs st ABSTRACT rest =
     Inr (st\<lparr>doc := add_section (add_toc_placeholder
                (abstract_body
                   (add_paragraph
                      (add_styled_paragraph (doc st) [] FONT_SONGTI FONT_TIMES_NEW_ROMAN SIZE_SMALL_FOUR
                         (styled_defaults\<lparr>space_after_pt := emu_of_pt SIZE_SMALL_FOUR\<rparr>))
                      (title_paragraph ABSTRACT FONT_TIMES_NEW_ROMAN))
                   FONT_TIMES_NEW_ROMAN (drop 1 rest))),
              main_text_started := True\<rparr>)"
  by (simp add: h1_step_def title_facts Let_def)

lemma h1_step_references:
  "h1_step refs st CANKAOWENXIAN rest =
     (case heading_step
             ((start_main_text st)\<lparr>doc := add_paragraph (doc (start_main_text st)) page_break_paragraph\<rparr>)
             CANKAOWENXIAN 1 True of
        Inl x \<Rightarrow> Inl x
      | Inr st3 \<Rightarrow> Inr (st3\<lparr>doc := drain_references (doc st3) refs\<rparr>))"
  by (simp add: h1_step_def title_facts Let_def)

lemma h1_step_other:
  "t \<noteq> ZHAIYAO \<Longrightarrow> t \<noteq> ABSTRACT \<Longrightarrow>
   h1_step refs st t rest =
     (if t \<noteq> [] \<and> hd t = DI \<and> ZHANG \<in> set t then
        heading_step (case chap_match t of
                        Some g \<Rightarrow> (start_main_text st)\<lparr>current_chapter_num_str := g\<rparr>
                      | None \<Rightarrow> start_main_text st) t 1 True
      else if t = CANKAOWENXIAN then
        (case heading_step
                ((start_main_text st)\<lparr>doc := add_paragraph (doc (start_main_text st)) page_break_paragraph\<rparr>)
                t 1 True of
           Inl x \<Rightarrow> Inl x
         | Inr st3 \<Rightarrow> Inr (st3\<lparr>doc := drain_references (doc st3) refs\<rparr>))
      else if t = ZHIXIE then heading_step (start_main_text st) t 1 True
      else Inr st)"
  by (simp add: h1_step_def Let_def)

lemma h1_step_appends:
  assumes "h1_step refs st t rest = Inr st'"
  shows "\<exists>ext. body (doc st') = body (doc st) @ ext"
proof -
  consider (a) "t = ZHAIYAO" | (b) "t = ABSTRACT" | (c) "t \<noteq> ZHAIYAO" "t \<noteq> ABSTRACT"
    by blast
  then show ?thesis
  proof cases
    case a
    obtain ext where "body (abstract_body (add_paragraph (doc st)
        (title_paragraph [25688, 32, 32, 32, 35201] FONT_HEITI)) FONT_KAITI rest)
        = body (add_paragraph (doc st) (title_paragraph [25688, 32, 32, 32, 35201] FONT_HEITI)) @ ext"
      using abstract_body_appends by blast
    with a assms show ?thesis
      by (auto simp: h1_step_ZHAIYAO)
  next
    case b
    let ?d2 = "add_paragraph (add_styled_paragraph (doc st) [] FONT_SONGTI FONT_TIMES_NEW_ROMAN
                 SIZE_SMALL_FOUR (styled_defaults\<lparr>space_after_pt := emu_of_pt SIZE_SMALL_FOUR\<rparr>))
                 (title_paragraph ABSTRACT FONT_TIMES_NEW_ROMAN)"
    obtain x1 where x1: "body (abstract_body ?d2 FONT_TIMES_NEW_ROMAN (drop 1 rest)) = body ?d2 @ x1"
      using abstract_body_appends by blast
    obtain x2 where x2: "body (add_toc_placeholder (abstract_body ?d2 FONT_TIMES_NEW_ROMAN (drop 1 rest)))
         = body (abstract_body ?d2 FONT_TIMES_NEW_ROMAN (drop 1 rest)) @ x2"
      using add_toc_placeholder_appends by blast
    from b assms x1 x2 show ?thesis
      by (auto simp: h1_step_ABSTRACT)
  next
    case c
    with assms show ?thesis
      by (auto simp: h1_step_other body_start_main_text body_drain_references
               split: if_splits option.splits sum.splits dest!: heading_step_appends)
  qed
qed

lemma h1_step_sections_started:
  assumes "h1_step refs st t rest = Inr st'" and "main_text_started st" and "t \<noteq> ABSTRACT"
  shows "sections (doc st') = sections (doc st) \<and> main_text_started st'"
proof (cases "t = ZHAIYAO")
  case True
  with assms show ?thesis
    using abstract_body_appends by (auto simp: h1_step_ZHAIYAO)
next
  case False
  with assms show ?thesis
    by (auto simp: h1_step_other split: if_splits option.splits sum.splits
             dest!: heading_step_appends)
qed

lemma h1_step_ZHAIYAO_frame:
  assumes "h1_step refs st ZHAIYAO rest = Inr st'"
  shows "sections (doc st') = sections (doc st) \<and> main_text_started st' = main_text_started st"
  using assms abstract_body_appends by (auto simp: h1_step_ZHAIYAO)

lemma h1_step_ABSTRACT_frame:
  assumes "h1_step refs st ABSTRACT rest = Inr st'"
  shows "length (sections (doc st')) = Suc (length (sections (doc st))) \<and> main_text_started st'"
  using assms abstract_body_appends add_toc_placeholder_appends
  by (auto simp: h1_step_ABSTRACT)

text \<open>
  The loop: the body only grows; once the main text has started, only the heading
  \<open>ABSTRACT\<close> adds a section; elements that are not first-level headings are taken one by
  one; and a first-level heading is reached by the loop unless it comes right after the
  heading \<open>ABSTRACT\<close>.
\<close>

lemma process_element_appends:
  assumes "process_element e refs st el rest = Inr st'"
  shows "\<exists>ext. body (doc st') = body (doc st) @ ext"
proof (cases "is_h1 el")
  case True
  then obtain t where "el = H1 t" by (cases el) auto
  with assms show ?thesis by (auto simp: process_element_def dest: h1_step_appends)
next
  case False
  with assms show ?thesis using not_h1_step_appends by blast
qed

lemma main_loop_appends:
  "main_loop e refs st els = Inr st' \<Longrightarrow> \<exists>ext. body (doc st') = body (doc st) @ ext"
proof (induction e refs st els rule: main_loop.induct)
  case (1 e refs st)
  then show ?case by simp
next
  case (2 e refs st el rest)
  from "2.prems" obtain st1 where
    s1: "process_element e refs st el rest = Inr st1" and
    s2: "main_loop e refs st1 (remaining el rest) = Inr st'"
    by (auto split: sum.splits)
  from process_element_appends [OF s1] obtain x1 where "body (doc st1) = body (doc st) @ x1" ..
  moreover from "2.IH" [OF s1 s2] obtain x2 where "body (doc st') = body (doc st1) @ x2" ..
  ultimately show ?case by simp
qed

lemma set_remaining: "set (remaining el rest) \<subseteq> set rest"
proof -
  have "set (dropWhile (\<lambda>el. \<not> is_h1 el) (drop 1 rest)) \<subseteq> set rest"
    using set_dropWhileD [of _ "\<lambda>el. \<not> is_h1 el" "drop 1 rest"] set_drop_subset [of 1 rest]
    by blast
  moreover have "set (dropWhile (\<lambda>el. \<not> is_h1 el) rest) \<subseteq> set rest"
    using set_dropWhileD [of _ "\<lambda>el. \<not> is_h1 el" rest] by blast
  ultimately show ?thesis
    by (simp add: remaining_def split: element.splits)
qed

lemma process_element_started:
  assumes "process_element e refs st el rest = Inr st'"
      and "main_text_started st" and "el \<noteq> H1 ABSTRACT"
  shows "sections (doc st') = sections (doc st) \<and> main_text_started st'"
proof (cases "is_h1 el")
  case True
  then obtain t where "el = H1 t" by (cases el) auto
  with assms show ?thesis
    by (auto simp: process_element_def dest: h1_step_sections_started)
next
  case False
  with assms show ?thesis using not_h1_step_appends by metis
qed

lemma main_loop_started:
  "main_loop e refs st els = Inr st' \<Longrightarrow> main_text_started st \<Longrightarrow> H1 ABSTRACT \<notin> set els \<Longrightarrow>
   sections (doc st') = sections (doc st) \<and> main_text_started st'"
proof (induction e refs st els rule: main_loop.induct)
  case (1 e refs st)
  then show ?case by simp
next
  case (2 e refs st el rest)
  from "2.prems" obtain st1 where
    s1: "process_element e refs st el rest = Inr st1" and
    s2: "main_loop e refs st1 (remaining el rest) = Inr st'"
    by (auto split: sum.splits)
  from "2.prems" have ne: "el \<noteq> H1 ABSTRACT" and nr: "H1 ABSTRACT \<notin> set (remaining el rest)"
    using set_remaining [of el rest] by auto
  from process_element_started [OF s1 "2.prems"(2) ne]
  have f1: "sections (doc st1) = sections (doc st)" and f2: "main_text_started st1" by simp_all
  from "2.IH" [OF s1 s2 f2 nr] f1 show ?case by simp
qed

lemma remaining_not_h1: "\<not> is_h1 el \<Longrightarrow> remaining el rest = rest"
  by (cases el) (simp_all add: remaining_def)

lemma main_loop_skip_prefix:
  "list_all (\<lambda>el. \<not> is_h1 el) pre \<Longrightarrow> main_loop e refs st (pre @ rest) = Inr st' \<Longrightarrow>
   \<exists>st1. main_loop e refs st1 rest = Inr st' \<and> sections (doc st1) = sections (doc st) \<and>
         main_text_started st1 = main_text_started st \<and>
         (\<exists>ext. body (doc st1) = body (doc st) @ ext)"
proof (induction pre arbitrary: st)
  case Nil
  then show ?case by auto
next
  case (Cons el pre)
  from Cons.prems have nh: "\<not> is_h1 el" and np: "list_all (\<lambda>el. \<not> is_h1 el) pre" by simp_all
  from Cons.prems(2) obtain st0 where
    s1: "process_element e refs st el (pre @ rest) = Inr st0" and
    s2: "main_loop e refs st0 (pre @ rest) = Inr st'"
    by (auto simp: remaining_not_h1 [OF nh] split: sum.splits)
  from not_h1_step_appends [OF nh s1] obtain x0 where
    f: "sections (doc st0) = sections (doc st)" "main_text_started st0 = main_text_started st"
       "body (doc st0) = body (doc st) @ x0" by blast
  from Cons.IH [OF np s2] obtain st1 x1 where
    "main_loop e refs st1 rest = Inr st'" "sections (doc st1) = sections (doc st0)"
    "main_text_started st1 = main_text_started st0" "body (doc st1) = body (doc st0) @ x1"
    by blast
  with f show ?case by auto
qed

lemma dropWhile_not_h1_append:
  "is_h1 el \<Longrightarrow>
   dropWhile (\<lambda>el. \<not> is_h1 el) (pre @ el # post) = dropWhile (\<lambda>el. \<not> is_h1 el) pre @ el # post"
  by (induction pre) simp_all

lemma last_dropWhile:
  "dropWhile Q xs \<noteq> [] \<Longrightarrow> last (dropWhile Q xs) = last xs"
  by (induction xs) (auto split: if_splits)

lemma remaining_H1:
  "remaining (H1 ZHAIYAO) rest = dropWhile (\<lambda>el. \<not> is_h1 el) rest"
  "remaining (H1 ABSTRACT) rest = dropWhile (\<lambda>el. \<not> is_h1 el) (drop 1 rest)"
  by (simp_all add: remaining_def title_facts)

lemma remaining_other:
  "x \<noteq> H1 ZHAIYAO \<and> x \<noteq> H1 ABSTRACT \<Longrightarrow> remaining x rest = rest"
  by (cases x) (simp_all add: remaining_def)

lemma remaining_reaches:
  assumes "is_h1 el" and "pre = [] \<or> last pre \<noteq> H1 ABSTRACT" and "x # pre' = pre"
  shows "\<exists>pre''. remaining x (pre' @ el # post) = pre'' @ el # post \<and> length pre'' \<le> length pre' \<and>
           (pre'' = [] \<or> last pre'' \<noteq> H1 ABSTRACT)"
proof -
  let ?Q = "\<lambda>el. \<not> is_h1 el"
  from assms have lp: "pre' = [] \<or> last pre' \<noteq> H1 ABSTRACT" by auto
  have "x = H1 ZHAIYAO \<or> x = H1 ABSTRACT \<or> (x \<noteq> H1 ZHAIYAO \<and> x \<noteq> H1 ABSTRACT)" by blast
  then consider (a) "remaining x (pre' @ el # post) = pre' @ el # post"
    | (b) "remaining x (pre' @ el # post) = dropWhile ?Q (pre' @ el # post)"
    | (c) "x = H1 ABSTRACT" "remaining x (pre' @ el # post) = dropWhile ?Q (drop 1 (pre' @ el # post))"
    by (elim disjE) (simp_all add: remaining_H1 remaining_other)
  then show ?thesis
  proof cases
    case a
    with lp show ?thesis by auto
  next
    case b
    have "length (dropWhile ?Q pre') \<le> length pre'" by (rule length_dropWhile_le)
    moreover have "dropWhile ?Q pre' = [] \<or> last (dropWhile ?Q pre') \<noteq> H1 ABSTRACT"
    proof (cases "dropWhile ?Q pre' = []")
      case False
      then have "pre' \<noteq> []" by auto
      with False lp show ?thesis using last_dropWhile [of ?Q pre'] by metis
    qed simp
    ultimately show ?thesis
      using b dropWhile_not_h1_append [OF assms(1), of pre' post] by auto
  next
    case c
    with assms have ne: "pre' \<noteq> []" by auto
    then have d: "drop 1 (pre' @ el # post) = tl pre' @ el # post"
      by (cases pre') simp_all
    have "length (dropWhile ?Q (tl pre')) \<le> length pre'"
      using length_dropWhile_le [of ?Q "tl pre'"] by simp
    moreover have "dropWhile ?Q (tl pre') = [] \<or> last (dropWhile ?Q (tl pre')) \<noteq> H1 ABSTRACT"
    proof (cases "dropWhile ?Q (tl pre') = []")
      case False
      then have "tl pre' \<noteq> []" by auto
      then have "last (tl pre') = last pre'" using ne by (simp add: last_tl)
      with False lp ne show ?thesis using last_dropWhile [of ?Q "tl pre'"] by metis
    qed simp
    ultimately show ?thesis
      using c d dropWhile_not_h1_append [OF assms(1), of "tl pre'" post] by auto
  qed
qed

lemma main_loop_reaches:
  "is_h1 el \<Longrightarrow> pre = [] \<or> last pre \<noteq> H1 ABSTRACT \<Longrightarrow>
   main_loop e refs st (pre @ el # post) = Inr st' \<Longrightarrow>
   \<exists>st1. main_loop e refs st1 (el # post) = Inr st' \<and> (\<exists>ext. body (doc st1) = body (doc st) @ ext)"
proof (induction "length pre" arbitrary: pre st rule: less_induct)
  case less
  show ?case
  proof (cases pre)
    case Nil
    with less.prems show ?thesis by auto
  next
    case (Cons x pre')
    from less.prems(3) Cons obtain st0 where
      s1: "process_element e refs st x (pre' @ el # post) = Inr st0" and
      s2: "main_loop e refs st0 (remaining x (pre' @ el # post)) = Inr st'"
      by (auto split: sum.splits)
    from remaining_reaches [OF less.prems(1,2), of x pre' post] Cons obtain pre'' where
      r: "remaining x (pre' @ el # post) = pre'' @ el # post" "length pre'' \<le> length pre'"
         "pre'' = [] \<or> last pre'' \<noteq> H1 ABSTRACT" by auto
    from r(2) Cons have "length pre'' < length pre" by simp
    moreover have "main_loop e refs st0 (pre'' @ el # post) = Inr st'"
      using s2 r(1) by simp
    ultimately obtain st1 x1 where
      "main_loop e refs st1 (el # post) = Inr st'" "body (doc st1) = body (doc st0) @ x1"
      using less.hyps [OF _ less.prems(1) r(3), of st0] by blast
    moreover from process_element_appends [OF s1] obtain x0 where
      "body (doc st0) = body (doc st) @ x0" ..
    ultimately show ?thesis by auto
  qed
qed

subsection \<open>The references\<close>

lemma preprocess_html_foldl:
  "foldl (\<lambda>refs item. case item of None \<Rightarrow> refs | Some t \<Rightarrow> refs @ [t]) refs (map Some ts) = refs @ ts"
  by (induction ts arbitrary: refs) simp_all

lemma preprocess_html_Some:
  "footnote_items sp = map Some ts \<Longrightarrow> preprocess_html refs sp = refs @ ts"
  by (simp add: preprocess_html_def preprocess_html_foldl)

lemma foldl_refs_append:
  "foldl (\<lambda>refs item. case item of None \<Rightarrow> refs | Some t \<Rightarrow> refs @ [t]) (refs @ acc) items
   = refs @ foldl (\<lambda>refs item. case item of None \<Rightarrow> refs | Some t \<Rightarrow> refs @ [t]) acc items"
  by (induction items arbitrary: acc) (simp_all split: option.splits)

lemma preprocess_html_append:
  "preprocess_html refs sp = refs @ preprocess_html [] sp"
  using foldl_refs_append [of refs "[]" "footnote_items sp"] by (simp add: preprocess_html_def)

lemma reference_paragraph_text:
  "paragraph_text (reference_paragraph i r) = [91] @ str_nat (i + 1) @ [93, 32] @ r"
  unfolding reference_paragraph_def
  by (rule styled_paragraph_text) (simp add: styled_defaults_def)

lemma reference_paragraph_indent:
  "p_first_line_indent (reference_paragraph i r) = Some (Cm (7 / 10))"
  "p_left_indent (reference_paragraph i r) = None"
  by (simp_all add: reference_paragraph_def styled_paragraph_def set_paragraph_formatting_def
        styled_defaults_def new_paragraph_def Let_def)

lemma heading_step_1:
  "\<exists>hp. add_heading t 1 = Some (hp, Some t) \<and>
        heading_step st t 1 True =
          Inr (st\<lparr>doc := add_paragraph (doc st) hp, toc_items := toc_items st @ [(1, Some t)]\<rparr>)"
  by (simp add: heading_step_def add_heading_def)

lemma references_step:
  "\<exists>hp st'. add_heading CANKAOWENXIAN 1 = Some (hp, Some CANKAOWENXIAN) \<and>
     process_element e refs st (H1 CANKAOWENXIAN) rest = Inr st' \<and>
     body (doc st') =
       body (doc st) @ (if main_text_started st then [] else [Section_Break]) @
       [Para page_break_paragraph, Para hp] @
       map (\<lambda>(i, r). Para (reference_paragraph i r)) (enumerate 0 refs)"
proof -
  let ?st2 = "(start_main_text st)\<lparr>doc := add_paragraph (doc (start_main_text st)) page_break_paragraph\<rparr>"
  from heading_step_1 [of CANKAOWENXIAN ?st2] obtain hp where
    h: "add_heading CANKAOWENXIAN 1 = Some (hp, Some CANKAOWENXIAN)"
       "heading_step ?st2 CANKAOWENXIAN 1 True =
          Inr (?st2\<lparr>doc := add_paragraph (doc ?st2) hp,
                     toc_items := toc_items ?st2 @ [(1, Some CANKAOWENXIAN)]\<rparr>)"
    by blast
  define st' where
    "st' = (?st2\<lparr>doc := add_paragraph (doc ?st2) hp,
                   toc_items := toc_items ?st2 @ [(1, Some CANKAOWENXIAN)]\<rparr>)
             \<lparr>doc := drain_references (add_paragraph (doc ?st2) hp) refs\<rparr>"
  have "process_element e refs st (H1 CANKAOWENXIAN) rest = Inr st'"
    unfolding st'_def by (simp add: process_element_def h1_step_references h(2) del: One_nat_def)
  moreover have "body (doc st') =
       body (doc st) @ (if main_text_started st then [] else [Section_Break]) @
       [Para page_break_paragraph, Para hp] @
       map (\<lambda>(i, r). Para (reference_paragraph i r)) (enumerate 0 refs)"
    by (simp add: st'_def body_drain_references body_start_main_text)
  ultimately show ?thesis using h(1) by blast
qed

lemma remaining_references [simp]: "remaining (H1 CANKAOWENXIAN) rest = rest"
  by (rule remaining_other) (simp add: title_facts)

lemma markdown_to_word_Inr:
  assumes "fst (markdown_to_word e config refs0 fs md) = Inr d"
  shows "\<exists>st h. main_loop e (preprocess_html refs0 (md_parser e md)) (initial_state fs)
                  (children (md_parser e md)) = Inr st \<and>
               config ARTICAL_HEADER = Some h \<and>
               d = (doc st)\<lparr>sections := apply_headers_footers h (sections (doc st))\<rparr>"
  using assms
  by (auto simp: markdown_to_word_def Let_def split: sum.splits option.splits)

text \<open>
  C4. The first conversion of a process starts with an empty list of references. When the
  footnote items of the manuscript have the texts \<open>refs\<close>, in this order, and the heading
  of the references is met by the traversal (it does not come right after the heading
  \<open>ABSTRACT\<close>, which skips one element), the document that is saved has, after the
  paragraph of that heading, one paragraph for each text, in the same order, numbered from
  1: \<open>[1] A\<close>, \<open>[2] B\<close>, \<open>[3] C\<close>. The elements before and after the heading are
  arbitrary.
\<close>

theorem references_numbered_in_encounter_order:
  assumes "children (md_parser e md) = pre @ H1 CANKAOWENXIAN # post"
      and "pre = [] \<or> last pre \<noteq> H1 ABSTRACT"
      and "footnote_items (md_parser e md) = map Some refs"
      and "fst (markdown_to_word e config [] fs md) = Inr d"
  shows "\<exists>before hp toc ps after.
           add_heading CANKAOWENXIAN 1 = Some (hp, toc) \<and>
           body d = before @ [Para hp] @ map Para ps @ after \<and>
           map paragraph_text ps =
             map (\<lambda>(i, r). [91] @ str_nat (i + 1) @ [93, 32] @ r) (enumerate 0 refs)"
proof -
  from markdown_to_word_Inr [OF assms(4)] assms(1) preprocess_html_Some [OF assms(3), of "[]"]
  obtain st h where
    run: "main_loop e refs (initial_state fs) (pre @ H1 CANKAOWENXIAN # post) = Inr st" and
    d: "d = (doc st)\<lparr>sections := apply_headers_footers h (sections (doc st))\<rparr>"
    by auto
  from main_loop_reaches [OF _ assms(2) run] obtain st1 where
    at: "main_loop e refs st1 (H1 CANKAOWENXIAN # post) = Inr st" by auto
  from references_step [of e refs st1 post] obtain hp st2 where
    hp: "add_heading CANKAOWENXIAN 1 = Some (hp, Some CANKAOWENXIAN)" and
    step: "process_element e refs st1 (H1 CANKAOWENXIAN) post = Inr st2" and
    b2: "body (doc st2) =
           body (doc st1) @ (if main_text_started st1 then [] else [Section_Break]) @
           [Para page_break_paragraph, Para hp] @
           map (\<lambda>(i, r). Para (reference_paragraph i r)) (enumerate 0 refs)"
    by blast
  from at step have "main_loop e refs st2 post = Inr st" by simp
  from main_loop_appends [OF this] obtain after where
    b: "body (doc st) = body (doc st2) @ after" ..
  let ?ps = "map (\<lambda>(i, r). reference_paragraph i r) (enumerate 0 refs)"
  let ?before = "body (doc st1) @ (if main_text_started st1 then [] else [Section_Break]) @
                 [Para page_break_paragraph]"
  have "map (\<lambda>(i, r). Para (reference_paragraph i r)) (enumerate 0 refs) = map Para ?ps"
    by (simp add: case_prod_beta)
  with b b2 d have "body d = ?before @ [Para hp] @ map Para ?ps @ after" by simp
  moreover have "map paragraph_text ?ps =
      map (\<lambda>(i, r). [91] @ str_nat (i + 1) @ [93, 32] @ r) (enumerate 0 refs)"
    by (simp add: case_prod_beta reference_paragraph_text)
  ultimately show ?thesis using hp by blast
qed

lemma process_Navigable_String [simp]:
  "process_element e refs st Navigable_String rest = Inr st"
  "remaining Navigable_String rest = rest"
  by (simp_all add: process_element_def remaining_def)

lemma references_soup_run:
  "\<exists>d. fst (markdown_to_word (sample_env references_soup) sample_config [] {} []) = Inr d"
proof -
  from references_step [of "sample_env references_soup" "[asc ''A'', asc ''B'', asc ''C'']"
         "initial_state {}" "[]"]
  obtain st' where
    "process_element (sample_env references_soup) [asc ''A'', asc ''B'', asc ''C'']
       (initial_state {}) (H1 CANKAOWENXIAN) [] = Inr st'" by blast
  then have "main_loop (sample_env references_soup) [asc ''A'', asc ''B'', asc ''C'']
       (initial_state {}) [Navigable_String, H1 CANKAOWENXIAN] = Inr st'"
    by simp
  then show ?thesis
    by (simp add: markdown_to_word_def Let_def sample_env_def references_soup_def
          preprocess_html_def sample_config_def)
qed

lemma str_nat_small:
  "str_nat 1 = [49]" "str_nat (Suc 0) = [49]" "str_nat 2 = [50]" "str_nat 3 = [51]"
  "str_nat (Suc (Suc 0)) = [50]" "str_nat (Suc (Suc (Suc 0))) = [51]"
  by (subst str_nat.simps, simp)+

theorem references_numbered_in_encounter_order_witness:
  "\<exists>d. fst (markdown_to_word (sample_env references_soup) sample_config [] {} []) = Inr d \<and>
       (\<exists>before hp toc ps after.
          add_heading CANKAOWENXIAN 1 = Some (hp, toc) \<and>
          body d = before @ [Para hp] @ map Para ps @ after \<and>
          map paragraph_text ps = [asc ''[1] A'', asc ''[2] B'', asc ''[3] C''])"
proof -
  from references_soup_run obtain d where
    d: "fst (markdown_to_word (sample_env references_soup) sample_config [] {} []) = Inr d" ..
  have c: "children (md_parser (sample_env references_soup) []) = [Navigable_String] @ H1 CANKAOWENXIAN # []"
    by (simp add: sample_env_def references_soup_def)
  have l: "[Navigable_String] = [] \<or> last [Navigable_String] \<noteq> H1 ABSTRACT" by simp
  have f: "footnote_items (md_parser (sample_env references_soup) []) =
             map Some [asc ''A'', asc ''B'', asc ''C'']"
    by (simp add: sample_env_def references_soup_def)
  have "map (\<lambda>(i, r). [91] @ str_nat (i + 1) @ [93, 32] @ r) (enumerate 0 [asc ''A'', asc ''B'', asc ''C''])
      = [asc ''[1] A'', asc ''[2] B'', asc ''[3] C'']"
    by (simp add: str_nat_small asc_def)
  with references_numbered_in_encounter_order [OF c l f d] d show ?thesis by auto
qed

text \<open>
  C5. The heading of the references with one entry \<open>A\<close> in the list: the paragraph
  \<open>[1] A\<close> that the loop adds has a first-line indent of 0.7 cm, not of - 0.7 cm, and no
  left indent. The hanging indent is set only on the items of a list that have the form
  of a footnote definition.
\<close>

theorem drained_reference_has_no_hanging_indent:
  "map_option paragraph_text
     (last_paragraph (process_element (sample_env one_reference_soup) [asc ''A''] (initial_state {})
        (H1 CANKAOWENXIAN) [])) = Some (asc ''[1] A'') \<and>
   map_option p_left_indent
     (last_paragraph (process_element (sample_env one_reference_soup) [asc ''A''] (initial_state {})
        (H1 CANKAOWENXIAN) [])) = Some None \<and>
   map_option p_first_line_indent
     (last_paragraph (process_element (sample_env one_reference_soup) [asc ''A''] (initial_state {})
        (H1 CANKAOWENXIAN) [])) = Some (Some (Cm (7 / 10)))"
proof -
  from references_step [of "sample_env one_reference_soup" "[asc ''A'']" "initial_state {}" "[]"]
  obtain hp st' where
    s: "process_element (sample_env one_reference_soup) [asc ''A''] (initial_state {})
          (H1 CANKAOWENXIAN) [] = Inr st'" and
    b: "body (doc st') =
          body (doc (initial_state {})) @
          (if main_text_started (initial_state {}) then [] else [Section_Break]) @
          [Para page_break_paragraph, Para hp] @
          map (\<lambda>(i, r). Para (reference_paragraph i r)) (enumerate 0 [asc ''A''])"
    by blast
  from b have "last (body (doc st')) = Para (reference_paragraph 0 (asc ''A''))" by simp
  moreover have "paragraph_text (reference_paragraph 0 (asc ''A'')) = asc ''[1] A''"
    by (simp add: reference_paragraph_text str_nat_small asc_def)
  ultimately show ?thesis
    using s by (simp add: last_paragraph_def reference_paragraph_indent)
qed

text \<open>
  C9, as amended. The list of references is a global of the module that a conversion only
  appends to: after a conversion it holds what it held before, followed by the footnote
  texts of the manuscript just converted. It is empty when the module is loaded, and
  nothing empties it later.
\<close>

theorem reference_list_persists:
  "snd (markdown_to_word e config refs fs md) = refs @ snd (markdown_to_word e config [] fs md)"
  using preprocess_html_append [of refs "md_parser e md"]
  by (simp add: markdown_to_word_def Let_def)

lemma one_reference_run:
  "\<exists>d. fst (markdown_to_word (sample_env one_reference_soup) sample_config refs {} []) = Inr d \<and>
       length (body d) = 4 + length refs"
proof -
  let ?e = "sample_env one_reference_soup"
  have pre: "preprocess_html refs (md_parser ?e []) = refs @ [asc ''A'']"
    by (rule preprocess_html_Some) (simp add: sample_env_def one_reference_soup_def)
  have ch: "children (md_parser ?e []) = [H1 CANKAOWENXIAN]"
    by (simp add: sample_env_def one_reference_soup_def)
  from references_step [of ?e "refs @ [asc ''A'']" "initial_state {}" "[]"]
  obtain hp st' where
    s: "process_element ?e (refs @ [asc ''A'']) (initial_state {}) (H1 CANKAOWENXIAN) [] = Inr st'" and
    b: "body (doc st') =
          body (doc (initial_state {})) @
          (if main_text_started (initial_state {}) then [] else [Section_Break]) @
          [Para page_break_paragraph, Para hp] @
          map (\<lambda>(i, r). Para (reference_paragraph i r)) (enumerate 0 (refs @ [asc ''A'']))"
    by blast
  from s have m: "main_loop ?e (refs @ [asc ''A'']) (initial_state {}) [H1 CANKAOWENXIAN] = Inr st'"
    by simp
  have "length (body (doc st')) = 4 + length refs"
    unfolding b by (simp add: initial_state_def Document_def)
  moreover have "fst (markdown_to_word ?e sample_config refs {} []) =
      Inr ((doc st')\<lparr>sections := apply_headers_footers (asc ''Thesis'') (sections (doc st'))\<rparr>)"
    unfolding markdown_to_word_def Let_def pre ch m
    by (simp add: sample_config_def sample_env_def)
  ultimately show ?thesis by simp
qed

lemma one_reference_list:
  "snd (markdown_to_word (sample_env one_reference_soup) sample_config [] {} []) = [asc ''A'']"
  by (simp add: markdown_to_word_def Let_def preprocess_html_def sample_env_def
        one_reference_soup_def)

text \<open>
  The claim as stated fails: a manuscript with the heading of the references and one
  footnote, converted twice in a row, gives two different documents; the second has the
  entry twice.
\<close>

theorem second_conversion_differs:
  "fst (markdown_to_word (sample_env one_reference_soup) sample_config
          (snd (markdown_to_word (sample_env one_reference_soup) sample_config [] {} [])) {} [])
   \<noteq> fst (markdown_to_word (sample_env one_reference_soup) sample_config [] {} [])"
proof -
  from one_reference_run [of "[]"] obtain d1 where
    d1: "fst (markdown_to_word (sample_env one_reference_soup) sample_config [] {} []) = Inr d1"
        "length (body d1) = 4" by auto
  from one_reference_run [of "[asc ''A'']"] obtain d2 where
    d2: "fst (markdown_to_word (sample_env one_reference_soup) sample_config [asc ''A''] {} []) = Inr d2"
        "length (body d2) = 5" by auto
  from d1(2) d2(2) have "d1 \<noteq> d2" by auto
  with d1(1) d2(1) show ?thesis by (simp add: one_reference_list)
qed

subsection \<open>Sections, header and footer\<close>

lemma length_apply_headers_footers [simp]:
  "length (apply_headers_footers h secs) = length secs"
  by (simp add: apply_headers_footers_def)

lemma apply_headers_footers_nth:
  "i < length secs \<Longrightarrow>
   apply_headers_footers h secs ! i =
     (if i = 0 then clear_header_footer (secs ! i) else set_header_footer (secs ! i) h SIZE_SMALL_FIVE)"
  by (simp add: apply_headers_footers_def nth_enumerate_eq)

lemma apply_headers_footers_hd:
  "secs \<noteq> [] \<Longrightarrow>
   hd (apply_headers_footers h secs) =
     (hd secs)\<lparr>header := \<lparr>is_linked_to_previous = True,
                           hf_paragraphs = map (\<lambda>p. p\<lparr>runs := []\<rparr>)
                                             (hf_paragraphs (header (hd secs)))\<rparr>,
               footer := \<lparr>is_linked_to_previous = True,
                           hf_paragraphs = map (\<lambda>p. p\<lparr>runs := []\<rparr>)
                                             (hf_paragraphs (footer (hd secs)))\<rparr>\<rparr>"
  by (cases secs) (simp_all add: apply_headers_footers_def clear_header_footer_def)

lemma clear_header_footer_props:
  "is_linked_to_previous (header (clear_header_footer sec))"
  "is_linked_to_previous (footer (clear_header_footer sec))"
  "\<forall>p \<in> set (hf_paragraphs (header (clear_header_footer sec)) @
               hf_paragraphs (footer (clear_header_footer sec))). runs p = []"
  by (auto simp: clear_header_footer_def)

lemma set_header_footer_header:
  "\<exists>p ps. header (set_header_footer sec h s) = \<lparr>is_linked_to_previous = False, hf_paragraphs = p # ps\<rparr> \<and>
          paragraph_text p = h \<and> p_alignment p = Some CENTER \<and> p_bottom_border p"
  by (simp add: set_header_footer_def Let_def split: prod.splits)
     (simp add: paragraph_text_def set_paragraph_formatting_def Let_def fmt_defaults_def)

lemma set_header_footer_footer:
  "\<exists>p ps. footer (set_header_footer sec h s) = \<lparr>is_linked_to_previous = False, hf_paragraphs = p # ps\<rparr> \<and>
          p_alignment p = Some CENTER \<and> map run_special (runs p) = [Field (asc ''PAGE'')]"
  by (simp add: set_header_footer_def Let_def split: prod.splits)
     (simp add: add_page_number_field_def set_paragraph_formatting_def Let_def fmt_defaults_def
        set_run_font_def add_run_def)


lemma dropWhile_all_not_h1:
  "list_all (\<lambda>el. \<not> is_h1 el) m \<Longrightarrow> is_h1 el \<Longrightarrow>
   dropWhile (\<lambda>el. \<not> is_h1 el) (m @ el # rest) = el # rest"
  by (induction m) simp_all

lemma initial_state_sections:
  "length (sections (doc (initial_state fs))) = 1" "\<not> main_text_started (initial_state fs)"
  by (simp_all add: initial_state_def Document_def)

lemma front_matter_sections:
  assumes run: "main_loop e refs st0 (pre @ H1 ZHAIYAO # m1 @ H1 ABSTRACT # tail) = Inr st"
      and pre: "list_all (\<lambda>el. \<not> is_h1 el) pre" and m1: "list_all (\<lambda>el. \<not> is_h1 el) m1"
      and tail: "H1 ABSTRACT \<notin> set tail"
  shows "length (sections (doc st)) = Suc (length (sections (doc st0)))"
proof -
  from main_loop_skip_prefix [OF pre run] obtain st1 where
    r1: "main_loop e refs st1 (H1 ZHAIYAO # m1 @ H1 ABSTRACT # tail) = Inr st" and
    s1: "sections (doc st1) = sections (doc st0)" by blast
  from r1 obtain st2 where
    p2: "h1_step refs st1 ZHAIYAO (m1 @ H1 ABSTRACT # tail) = Inr st2" and
    r2: "main_loop e refs st2 (remaining (H1 ZHAIYAO) (m1 @ H1 ABSTRACT # tail)) = Inr st"
    by (auto simp: process_element_def split: sum.splits)
  from h1_step_ZHAIYAO_frame [OF p2] have s2: "sections (doc st2) = sections (doc st1)" by simp
  from r2 have r2': "main_loop e refs st2 (H1 ABSTRACT # tail) = Inr st"
    by (simp add: remaining_H1 dropWhile_all_not_h1 [OF m1])
  then obtain st3 where
    p3: "h1_step refs st2 ABSTRACT tail = Inr st3" and
    r3: "main_loop e refs st3 (remaining (H1 ABSTRACT) tail) = Inr st"
    by (auto simp: process_element_def split: sum.splits)
  from h1_step_ABSTRACT_frame [OF p3] have
    s3: "length (sections (doc st3)) = Suc (length (sections (doc st2)))" and
    m3: "main_text_started st3" by simp_all
  from tail set_remaining [of "H1 ABSTRACT" tail]
  have "H1 ABSTRACT \<notin> set (remaining (H1 ABSTRACT) tail)" by blast
  from main_loop_started [OF r3 m3 this] have "sections (doc st) = sections (doc st3)" by simp
  with s1 s2 s3 show ?thesis by simp
qed

text \<open>
  C8. A manuscript whose first-level headings are, in this order, the Chinese abstract,
  \<open>ABSTRACT\<close>, one chapter heading and the references, with any other elements around
  them: the document that is saved has exactly two sections. Header and footer of the
  first are linked to the previous section and their paragraphs are empty. Every later
  section has a header of its own whose first paragraph holds the running title of the
  configuration, centred, with a bottom border, and a footer of its own whose first
  paragraph is centred and holds the one field \<open>PAGE\<close>. These sections are what the
  finalizer makes of the sections that the traversal leaves, and the finalizer clears the
  first section whatever it holds: of any sections it links header and footer of the
  first to the previous section and empties every paragraph of them, changing nothing
  else of that section.
\<close>

theorem two_sections_header_and_footer:
  assumes "children (md_parser e md) =
             pre @ [H1 ZHAIYAO] @ m1 @ [H1 ABSTRACT] @ m2 @ [H1 chapter] @ m3 @
             [H1 CANKAOWENXIAN] @ post"
      and "list_all (\<lambda>el. \<not> is_h1 el) (pre @ m1 @ m2 @ m3 @ post)"
      and "chapter \<noteq> [] \<and> hd chapter = DI \<and> ZHANG \<in> set chapter"
      and "config ARTICAL_HEADER = Some title"
      and "fst (markdown_to_word e config refs fs md) = Inr d"
  shows "length (sections d) = 2 \<and>
         is_linked_to_previous (header (sections d ! 0)) \<and>
         is_linked_to_previous (footer (sections d ! 0)) \<and>
         (\<forall>p \<in> set (hf_paragraphs (header (sections d ! 0)) @
                     hf_paragraphs (footer (sections d ! 0))). runs p = []) \<and>
         (\<forall>i. 0 < i \<and> i < length (sections d) \<longrightarrow>
            (\<exists>hp hps fp fps.
               header (sections d ! i) = \<lparr>is_linked_to_previous = False, hf_paragraphs = hp # hps\<rparr> \<and>
               paragraph_text hp = title \<and> p_alignment hp = Some CENTER \<and> p_bottom_border hp \<and>
               footer (sections d ! i) = \<lparr>is_linked_to_previous = False, hf_paragraphs = fp # fps\<rparr> \<and>
               p_alignment fp = Some CENTER \<and>
               map run_special (runs fp) = [Field (asc ''PAGE'')])) \<and>
         (\<exists>st. main_loop e (preprocess_html refs (md_parser e md)) (initial_state fs)
                  (children (md_parser e md)) = Inr st \<and>
               sections d = apply_headers_footers title (sections (doc st))) \<and>
         (\<forall>secs. secs \<noteq> [] \<longrightarrow>
            hd (apply_headers_footers title secs) =
              (hd secs)\<lparr>header := \<lparr>is_linked_to_previous = True,
                                    hf_paragraphs = map (\<lambda>p. p\<lparr>runs := []\<rparr>)
                                                      (hf_paragraphs (header (hd secs)))\<rparr>,
                        footer := \<lparr>is_linked_to_previous = True,
                                    hf_paragraphs = map (\<lambda>p. p\<lparr>runs := []\<rparr>)
                                                      (hf_paragraphs (footer (hd secs)))\<rparr>\<rparr>)"
proof -
  let ?tail = "m2 @ H1 chapter # m3 @ H1 CANKAOWENXIAN # post"
  from markdown_to_word_Inr [OF assms(5)] assms(1,4) obtain st where
    run: "main_loop e (preprocess_html refs (md_parser e md)) (initial_state fs)
            (pre @ H1 ZHAIYAO # m1 @ H1 ABSTRACT # ?tail) = Inr st" and
    d: "d = (doc st)\<lparr>sections := apply_headers_footers title (sections (doc st))\<rparr>"
    by auto
  from assms(3) have "chapter \<noteq> ABSTRACT" using title_facts by auto
  moreover from assms(2) have "\<forall>el \<in> set (m2 @ m3 @ post). \<not> is_h1 el"
    by (auto simp: list_all_iff)
  then have "H1 ABSTRACT \<notin> set (m2 @ m3 @ post)"
    using is_h1.simps(1) by blast
  ultimately have tail: "H1 ABSTRACT \<notin> set ?tail"
    using title_facts(9) by auto
  from assms(2) have pre: "list_all (\<lambda>el. \<not> is_h1 el) pre" and m1: "list_all (\<lambda>el. \<not> is_h1 el) m1"
    by simp_all
  from front_matter_sections [OF run pre m1 tail]
  have len: "length (sections (doc st)) = 2" by (simp add: initial_state_sections)
  with d have l2: "length (sections d) = 2" by simp
  from len d have s0: "sections d ! 0 = clear_header_footer (sections (doc st) ! 0)"
    by (simp add: apply_headers_footers_nth)
  have rest: "\<And>i. 0 < i \<Longrightarrow> i < length (sections d) \<Longrightarrow>
      sections d ! i = set_header_footer (sections (doc st) ! i) title SIZE_SMALL_FIVE"
    using d by (simp add: apply_headers_footers_nth)
  show ?thesis
  proof (intro conjI allI impI)
    show "length (sections d) = 2" by (rule l2)
    show "is_linked_to_previous (header (sections d ! 0))"
      unfolding s0 by (rule clear_header_footer_props)
    show "is_linked_to_previous (footer (sections d ! 0))"
      unfolding s0 by (rule clear_header_footer_props)
    show "\<forall>p \<in> set (hf_paragraphs (header (sections d ! 0)) @
                     hf_paragraphs (footer (sections d ! 0))). runs p = []"
      unfolding s0 by (rule clear_header_footer_props)
  next
    fix i assume "0 < i \<and> i < length (sections d)"
    then have eq: "sections d ! i = set_header_footer (sections (doc st) ! i) title SIZE_SMALL_FIVE"
      using rest by blast
    obtain hp hps where
      h: "header (set_header_footer (sections (doc st) ! i) title SIZE_SMALL_FIVE)
            = \<lparr>is_linked_to_previous = False, hf_paragraphs = hp # hps\<rparr>"
         "paragraph_text hp = title" "p_alignment hp = Some CENTER" "p_bottom_border hp"
      using set_header_footer_header [of "sections (doc st) ! i" title SIZE_SMALL_FIVE]
      by (elim exE conjE)
    obtain fp fps where
      f: "footer (set_header_footer (sections (doc st) ! i) title SIZE_SMALL_FIVE)
            = \<lparr>is_linked_to_previous = False, hf_paragraphs = fp # fps\<rparr>"
         "p_alignment fp = Some CENTER" "map run_special (runs fp) = [Field (asc ''PAGE'')]"
      using set_header_footer_footer [of "sections (doc st) ! i" title SIZE_SMALL_FIVE]
      by (elim exE conjE)
    show "\<exists>hp hps fp fps.
               header (sections d ! i) = \<lparr>is_linked_to_previous = False, hf_paragraphs = hp # hps\<rparr> \<and>
               paragraph_text hp = title \<and> p_alignment hp = Some CENTER \<and> p_bottom_border hp \<and>
               footer (sections d ! i) = \<lparr>is_linked_to_previous = False, hf_paragraphs = fp # fps\<rparr> \<and>
               p_alignment fp = Some CENTER \<and>
               map run_special (runs fp) = [Field (asc ''PAGE'')]"
      unfolding eq
      by (rule exI [of _ hp], rule exI [of _ hps], rule exI [of _ fp], rule exI [of _ fps])
         (simp only: h f simp_thms)
  next
    from run assms(1) d
    show "\<exists>st. main_loop e (preprocess_html refs (md_parser e md)) (initial_state fs)
                  (children (md_parser e md)) = Inr st \<and>
               sections d = apply_headers_footers title (sections (doc st))"
      by (intro exI [of _ st]) simp
  next
    fix secs :: "doc_section list" assume "secs \<noteq> []"
    then show "hd (apply_headers_footers title secs) =
              (hd secs)\<lparr>header := \<lparr>is_linked_to_previous = True,
                                    hf_paragraphs = map (\<lambda>p. p\<lparr>runs := []\<rparr>)
                                                      (hf_paragraphs (header (hd secs)))\<rparr>,
                        footer := \<lparr>is_linked_to_previous = True,
                                    hf_paragraphs = map (\<lambda>p. p\<lparr>runs := []\<rparr>)
                                                      (hf_paragraphs (footer (hd secs)))\<rparr>\<rparr>"
      by (rule apply_headers_footers_hd)
  qed
qed


text \<open>
  A first-level heading never raises, so a manuscript of headings and strings is
  converted to the end.
\<close>

lemma h1_step_total: "\<exists>st'. h1_step refs st t rest = Inr st'"
proof -
  have hs: "\<And>st t. \<exists>st'. heading_step st t 1 True = Inr st'"
    using heading_step_1 by blast
  consider (a) "t = ZHAIYAO" | (b) "t = ABSTRACT" | (c) "t \<noteq> ZHAIYAO" "t \<noteq> ABSTRACT" by blast
  then show ?thesis
  proof cases
    case a then show ?thesis by (simp add: h1_step_ZHAIYAO)
  next
    case b then show ?thesis by (simp add: h1_step_ABSTRACT)
  next
    case c
    show ?thesis
    proof (cases "t = CANKAOWENXIAN")
      case True
      then show ?thesis using references_step [where refs = refs and st = st and rest = rest]
        by (auto simp: process_element_def)
    next
      case False
      with c hs show ?thesis by (simp add: h1_step_other del: One_nat_def)
    qed
  qed
qed

lemma main_loop_headings_total:
  "list_all (\<lambda>el. is_h1 el \<or> el = Navigable_String) els \<Longrightarrow> \<exists>st'. main_loop e refs st els = Inr st'"
proof (induction e refs st els rule: main_loop.induct)
  case (1 e refs st)
  show ?case by simp
next
  case (2 e refs st el rest)
  from "2.prems" have "is_h1 el \<or> el = Navigable_String" by simp
  then obtain st1 where s1: "process_element e refs st el rest = Inr st1"
  proof
    assume "is_h1 el"
    then obtain t where "el = H1 t" by (cases el) auto
    with h1_step_total [of refs st t rest] that show ?thesis
      by (auto simp: process_element_def)
  next
    assume "el = Navigable_String"
    with that show ?thesis by simp
  qed
  from "2.prems" set_remaining [of el rest]
  have "list_all (\<lambda>el. is_h1 el \<or> el = Navigable_String) (remaining el rest)"
    by (auto simp: list_all_iff)
  from "2.IH" [OF s1 this] s1 show ?case by simp
qed

lemma thesis_soup_run:
  "\<exists>d. fst (markdown_to_word (sample_env thesis_soup) sample_config [] {} []) = Inr d"
proof -
  have "list_all (\<lambda>el. is_h1 el \<or> el = Navigable_String) (children thesis_soup)"
    by (simp add: thesis_soup_def)
  from main_loop_headings_total [OF this] obtain st' where
    "main_loop (sample_env thesis_soup) (preprocess_html [] thesis_soup) (initial_state {})
       (children thesis_soup) = Inr st'" by blast
  then show ?thesis
    by (simp add: markdown_to_word_def Let_def sample_env_def sample_config_def)
qed

theorem two_sections_header_and_footer_witness:
  "\<exists>d. fst (markdown_to_word (sample_env thesis_soup) sample_config [] {} []) = Inr d \<and>
       length (sections d) = 2 \<and>
       is_linked_to_previous (header (sections d ! 0)) \<and>
       is_linked_to_previous (footer (sections d ! 0)) \<and>
       (\<forall>p \<in> set (hf_paragraphs (header (sections d ! 0)) @
                   hf_paragraphs (footer (sections d ! 0))). runs p = []) \<and>
       (\<forall>i. 0 < i \<and> i < length (sections d) \<longrightarrow>
          (\<exists>hp hps fp fps.
             header (sections d ! i) = \<lparr>is_linked_to_previous = False, hf_paragraphs = hp # hps\<rparr> \<and>
             paragraph_text hp = asc ''Thesis'' \<and> p_alignment hp = Some CENTER \<and> p_bottom_border hp \<and>
             footer (sections d ! i) = \<lparr>is_linked_to_previous = False, hf_paragraphs = fp # fps\<rparr> \<and>
             p_alignment fp = Some CENTER \<and>
             map run_special (runs fp) = [Field (asc ''PAGE'')])) \<and>
       (\<exists>st. main_loop (sample_env thesis_soup) (preprocess_html [] thesis_soup) (initial_state {})
                (children thesis_soup) = Inr st \<and>
             sections d = apply_headers_footers (asc ''Thesis'') (sections (doc st))) \<and>
       hd (apply_headers_footers (asc ''Thesis'') [titled_section]) =
         titled_section\<lparr>header := \<lparr>is_linked_to_previous = True,
                                    hf_paragraphs = [new_paragraph None]\<rparr>,
                        footer := \<lparr>is_linked_to_previous = True,
                                    hf_paragraphs = [new_paragraph None]\<rparr>\<rparr>"
proof -
  from thesis_soup_run obtain d where
    d: "fst (markdown_to_word (sample_env thesis_soup) sample_config [] {} []) = Inr d" ..
  have c: "children (md_parser (sample_env thesis_soup) []) =
             [] @ [H1 ZHAIYAO] @ [Navigable_String] @ [H1 ABSTRACT] @ [Navigable_String] @
             [H1 [31532, 19968, 31456, 32, 24341, 35328] ] @ [Navigable_String] @
             [H1 CANKAOWENXIAN] @ []"
    by (simp add: sample_env_def thesis_soup_def)
  have n: "list_all (\<lambda>el. \<not> is_h1 el)
             ([] @ [Navigable_String] @ [Navigable_String] @ [Navigable_String] @ [])"
    by simp
  have ch: "[31532, 19968, 31456, 32, 24341, 35328] \<noteq> [] \<and>
            hd [31532, 19968, 31456, 32, 24341, 35328] = DI \<and>
            ZHANG \<in> set [31532, 19968, 31456, 32, 24341, 35328]"
    by (simp add: DI_def ZHANG_def)
  have t: "sample_config ARTICAL_HEADER = Some (asc ''Thesis'')"
    by (simp add: sample_config_def)
  have p: "map (\<lambda>p. p\<lparr>runs := []\<rparr>) (hf_paragraphs (header titled_section)) = [new_paragraph None]"
          "map (\<lambda>p. p\<lparr>runs := []\<rparr>) (hf_paragraphs (footer titled_section)) = [new_paragraph None]"
    by (simp_all add: titled_section_def new_paragraph_def)
  have s: "md_parser (sample_env thesis_soup) [] = thesis_soup" by (simp add: sample_env_def)
  note r = two_sections_header_and_footer [OF c n ch t d]
  from r have r1: "length (sections d) = 2 \<and>
       is_linked_to_previous (header (sections d ! 0)) \<and>
       is_linked_to_previous (footer (sections d ! 0)) \<and>
       (\<forall>p \<in> set (hf_paragraphs (header (sections d ! 0)) @
                   hf_paragraphs (footer (sections d ! 0))). runs p = []) \<and>
       (\<forall>i. 0 < i \<and> i < length (sections d) \<longrightarrow>
          (\<exists>hp hps fp fps.
             header (sections d ! i) = \<lparr>is_linked_to_previous = False, hf_paragraphs = hp # hps\<rparr> \<and>
             paragraph_text hp = asc ''Thesis'' \<and> p_alignment hp = Some CENTER \<and> p_bottom_border hp \<and>
             footer (sections d ! i) = \<lparr>is_linked_to_previous = False, hf_paragraphs = fp # fps\<rparr> \<and>
             p_alignment fp = Some CENTER \<and>
             map run_special (runs fp) = [Field (asc ''PAGE'')]))"
    by blast
  from r have r2: "\<exists>st. main_loop (sample_env thesis_soup) (preprocess_html [] thesis_soup)
                (initial_state {}) (children thesis_soup) = Inr st \<and>
             sections d = apply_headers_footers (asc ''Thesis'') (sections (doc st))"
    unfolding s by blast
  from r have "\<forall>secs. secs \<noteq> [] \<longrightarrow>
            hd (apply_headers_footers (asc ''Thesis'') secs) =
              (hd secs)\<lparr>header := \<lparr>is_linked_to_previous = True,
                                    hf_paragraphs = map (\<lambda>p. p\<lparr>runs := []\<rparr>)
                                                      (hf_paragraphs (header (hd secs)))\<rparr>,
                        footer := \<lparr>is_linked_to_previous = True,
                                    hf_paragraphs = map (\<lambda>p. p\<lparr>runs := []\<rparr>)
                                                      (hf_paragraphs (footer (hd secs)))\<rparr>\<rparr>"
    by blast
  from this [rule_format, of "[titled_section]"] p
  have r3: "hd (apply_headers_footers (asc ''Thesis'') [titled_section]) =
         titled_section\<lparr>header := \<lparr>is_linked_to_previous = True,
                                    hf_paragraphs = [new_paragraph None]\<rparr>,
                        footer := \<lparr>is_linked_to_previous = True,
                                    hf_paragraphs = [new_paragraph None]\<rparr>\<rparr>"
    by simp
  from d r1 r2 r3 show ?thesis by blast
qed

subsection \<open>Diagrams that fail to render\<close>

lemma re_split_Nil: "re_split cls [] = [ [] ]"
  by (simp add: re_split.simps [of _ "[]"])

lemma re_split_run:
  assumes "list_all cls xs" and "xs \<noteq> []" and "ys = [] \<or> \<not> cls (hd ys)"
  shows "re_split cls (xs @ ys) = [] # xs # re_split cls ys"
proof -
  from assms(1,2) have c: "cls (hd xs)" by (cases xs) simp_all
  from assms(2) c have d: "dropWhile (\<lambda>c. \<not> cls c) (xs @ ys) = xs @ ys"
    by (cases xs) simp_all
  from assms(2) c have t: "takeWhile (\<lambda>c. \<not> cls c) (xs @ ys) = []"
    by (cases xs) simp_all
  from assms(1,3) have t2: "takeWhile cls (xs @ ys) = xs"
    by (cases ys) (auto simp: list_all_iff takeWhile_append2 intro: takeWhile_eq_all_conv [THEN iffD2])
  from assms(1,3) have d2: "dropWhile cls (xs @ ys) = ys"
    by (cases ys) (auto simp: list_all_iff dropWhile_append2)
  from assms(2) show ?thesis
    by (subst re_split.simps) (simp add: Let_def d t t2 d2)
qed

lemma re_split_gap:
  assumes "list_all (\<lambda>c. \<not> cls c) g" and "ys \<noteq> []" and "cls (hd ys)"
  shows "re_split cls (g @ ys) = g # tl (re_split cls ys)"
proof -
  from assms have t: "takeWhile (\<lambda>c. \<not> cls c) (g @ ys) = g"
    by (cases ys) (auto simp: list_all_iff takeWhile_append2)
  from assms have d: "dropWhile (\<lambda>c. \<not> cls c) (g @ ys) = ys"
    by (cases ys) (auto simp: list_all_iff dropWhile_append2)
  from assms(2,3) have t0: "takeWhile (\<lambda>c. \<not> cls c) ys = []" and d0: "dropWhile (\<lambda>c. \<not> cls c) ys = ys"
    by (cases ys; simp)+
  from assms(2) show ?thesis
    by (subst re_split.simps, subst (2) re_split.simps) (simp add: Let_def t d t0 d0)
qed





subsection \<open>Evaluation on three diagram blocks\<close>

lemma class_evals:
  "is_space 32" "\<not> is_space 51" "\<not> is_space 97" "\<not> is_space 98" "\<not> is_space 35265"
  "\<not> is_space 49" "\<not> is_space 22270" "\<not> is_space 93"
  "digit_or_dot 51" "digit_or_dot 46" "digit_or_dot 49" "\<not> digit_or_dot 32"
  "\<not> latin 22270" "latin 32" "latin 46" "latin 49"
  by (simp_all add: is_space_def digit_or_dot_def is_digit_def latin_def is_ascii_punct_def)



lemma prefix_eval:
  "asc ''[Failed to render Mermaid diagram: '' =
     [91, 70, 97, 105, 108, 101, 100, 32, 116, 111, 32, 114, 101, 110, 100, 101, 114, 32, 77,
      101, 114, 109, 97, 105, 100, 32, 100, 105, 97, 103, 114, 97, 109, 58, 32]"
  by (simp add: asc_def)

lemma prefix_latin: "list_all latin (asc ''[Failed to render Mermaid diagram: '')"
  by (simp add: prefix_eval latin_def is_ascii_punct_def is_space_def)

lemma prefix_nonempty: "asc ''[Failed to render Mermaid diagram: '' \<noteq> []"
  by (simp add: prefix_eval)

lemma prefix_no_marker: "rendered_marker h (asc ''[Failed to render Mermaid diagram: '') = None"
  by (simp add: prefix_eval rendered_marker_def citation_match_def ref_match_in_text_def
        is_digit_def split: prod.splits)

lemma rendered_marker_not_bracket: "c \<noteq> 91 \<Longrightarrow> rendered_marker h (c # r) = None"
  by (simp add: rendered_marker_def citation_match_def ref_match_in_text_def)


lemma split_marker_failure:
  "re_split latin (failure_text [22270, 51, 46, 49] [35265, 91, 51, 93, 97, 98]) =
     [ [], asc ''[Failed to render Mermaid diagram: '', [22270], [51, 46, 49, 32], [35265],
      [91, 51, 93, 97, 98, 93], [] ]"
proof -
  have a: "re_split latin ([91, 51, 93, 97, 98, 93] @ []) =
             [] # [91, 51, 93, 97, 98, 93] # re_split latin []"
    by (rule re_split_run) (simp_all add: class_evals latin_bracket_digits)
  have b: "re_split latin ([35265] @ [91, 51, 93, 97, 98, 93]) =
             [35265] # tl (re_split latin [91, 51, 93, 97, 98, 93])"
    by (rule re_split_gap) (simp_all add: class_evals latin_bracket_digits)
  have c: "re_split latin ([51, 46, 49, 32] @ ([35265] @ [91, 51, 93, 97, 98, 93])) =
             [] # [51, 46, 49, 32] # re_split latin ([35265] @ [91, 51, 93, 97, 98, 93])"
    by (rule re_split_run) (simp_all add: class_evals latin_bracket_digits)
  have d: "re_split latin ([22270] @ ([51, 46, 49, 32] @ ([35265] @ [91, 51, 93, 97, 98, 93]))) =
             [22270] # tl (re_split latin ([51, 46, 49, 32] @ ([35265] @ [91, 51, 93, 97, 98, 93])))"
    by (rule re_split_gap) (simp_all add: class_evals latin_bracket_digits)
  have e: "re_split latin (asc ''[Failed to render Mermaid diagram: '' @
             ([22270] @ ([51, 46, 49, 32] @ ([35265] @ [91, 51, 93, 97, 98, 93])))) =
             [] # asc ''[Failed to render Mermaid diagram: '' #
             re_split latin ([22270] @ ([51, 46, 49, 32] @ ([35265] @ [91, 51, 93, 97, 98, 93])))"
    by (rule re_split_run) (simp_all add: prefix_latin prefix_nonempty class_evals)
  from a b c d e show ?thesis by (simp add: failure_text_def re_split_Nil)
qed


lemma sample_mmdc [simp]: "mmdc (sample_env sp) n c = Command_Not_Found"
  by (simp add: sample_env_def)







text \<open>
  Text that follows a marker in the same part is another matter, as in the segmenter
  itself: for the caption U+89C1 \<open>[3]ab\<close> the paragraph reads
  \<open>[Failed to render Mermaid diagram: \<close> U+56FE \<open>3.1 \<close> U+89C1 \<open>[3]\<close>, without \<open>ab\<close> and
  without the closing bracket.
\<close>

lemma marker_part_rendered:
  "rendered_marker False [91, 51, 93, 97, 98, 93] = Some [91, 51, 93]"
  by (simp add: rendered_marker_def citation_match_def is_digit_def)

lemma marker_failure_text:
  "paragraph_text (styled_paragraph (failure_text [22270, 51, 46, 49] [35265, 91, 51, 93, 97, 98])
      FONT_SONGTI FONT_TIMES_NEW_ROMAN SIZE_SMALL_FOUR
      (styled_defaults\<lparr>line_spacing_val := LINE_SPACING_1_25\<rparr>))
   = asc ''[Failed to render Mermaid diagram: '' @ [22270, 51, 46, 49, 32, 35265, 91, 51, 93]"
proof -
  have "\<not> is_reference (styled_defaults\<lparr>line_spacing_val := LINE_SPACING_1_25\<rparr>)"
       "\<not> is_heading (styled_defaults\<lparr>line_spacing_val := LINE_SPACING_1_25\<rparr>)"
    by (simp_all add: styled_defaults_def)
  then show ?thesis
    by (simp add: paragraph_text_def runs_styled_paragraph split_marker_failure part_runs_text
          prefix_no_marker rendered_marker_not_bracket rendered_marker_evals marker_part_rendered)
qed

text \<open>
  A renderer that writes the image and then runs out of time leaves the image behind:
  the \<open>finally\<close> clause removes the diagram source only.
\<close>

lemma image_left_after_timeout:
  "snd (convert_mermaid_to_image_mmdc
          ((sample_env empty_soup)\<lparr>mmdc := (\<lambda>n code. Timeout_Expired),
                                   mmdc_writes := (\<lambda>n code. True)\<rparr>) 0 {} []) =
     {asc ''/tmp/d0.png''}"
proof -
  have r: "replace (asc ''.mmd'') (asc ''.png'') (asc ''/tmp/d0.mmd'') = asc ''/tmp/d0.png''"
    by (simp add: asc_def replace.simps)
  have n: "asc ''/tmp/d'' @ str_nat 0 @ asc ''.mmd'' = asc ''/tmp/d0.mmd''"
    by (simp add: asc_def str_nat.simps)
  show ?thesis
    by (simp add: convert_mermaid_to_image_mmdc_def sample_env_def Let_def n r)
       (auto simp: asc_def)
qed


section \<open>Properties of the script\<close>

text \<open>
  C10. The configuration file is read when the module is loaded, before the arguments are
  parsed and before the manuscript is looked for: when \<open>./config.json\<close> does not exist,
  the process ends there with the trace of the exception and status 1, whatever the
  arguments and the files are, and the report of a missing manuscript is not printed.
\<close>

theorem missing_config_fails_at_load:
  "config_json iv = Inl FileNotFoundError \<Longrightarrow>
   script e iv = \<lparr>exit_status = 1, console = [Trace FileNotFoundError], saved = None\<rparr> \<and>
   Markdown_Not_Found f \<notin> set (console (script e iv))"
  by (simp add: script_def)

theorem missing_config_fails_at_load_witness:
  "config_json (sample_invocation (Inl FileNotFoundError) {}) = Inl FileNotFoundError \<and>
   script (sample_env empty_soup) (sample_invocation (Inl FileNotFoundError) {})
     = \<lparr>exit_status = 1, console = [Trace FileNotFoundError], saved = None\<rparr> \<and>
   Markdown_Not_Found (asc ''thesis.md'')
     \<notin> set (console (script (sample_env empty_soup) (sample_invocation (Inl FileNotFoundError) {})))"
proof -
  have h: "config_json (sample_invocation (Inl FileNotFoundError) {}) = Inl FileNotFoundError"
    by (simp add: sample_invocation_def)
  from h missing_config_fails_at_load [OF h, of "sample_env empty_soup" "asc ''thesis.md''"]
  show ?thesis by blast
qed

text \<open>
  An exception of the conversion is caught by the script, which prints it and its trace;
  nothing follows the handler, so the process ends with status 0.
\<close>

lemma script_conversion_raises:
  "config_json iv = Inr config \<Longrightarrow> args iv = Some (md_file, docx_file) \<Longrightarrow>
   md_file \<in> existing_files iv \<Longrightarrow> read_md iv = Inr md \<Longrightarrow>
   fst (markdown_to_word e config [] (existing_files iv) md) = Inl x \<Longrightarrow>
   script e iv = \<lparr>exit_status = 0, console = [Unexpected_Error x, Trace x], saved = None\<rparr>"
  by (simp add: script_def)

lemma empty_manuscript_no_header:
  "fst (markdown_to_word (sample_env empty_soup) Map.empty [] fs md) = Inl KeyError"
  by (simp add: markdown_to_word_def sample_env_def empty_soup_def Let_def)

text \<open>
  C6. A configuration file that holds \<open>{}\<close> and an empty manuscript that exists: the
  conversion raises \<open>KeyError\<close> when it reads the running title, the script catches it and
  prints the trace, and the exit status is 0.
\<close>

theorem caught_exception_exits_with_status_0:
  "script (sample_env empty_soup) (sample_invocation (Inr Map.empty) {asc ''thesis.md''})
   = \<lparr>exit_status = 0, console = [Unexpected_Error KeyError, Trace KeyError], saved = None\<rparr>"
  by (rule script_conversion_raises [where config = Map.empty and md = "[]"
         and md_file = "asc ''thesis.md''" and docx_file = "asc ''thesis.docx''"])
     (simp_all add: sample_invocation_def empty_manuscript_no_header)

end
